theory Spec2Isabelle
  imports Main "HOL-Library.Word" "HOL-Library.Monad_Syntax"
begin

unbundle bit_operations_syntax

section \<open>The VTF header and the pixel formats\<close>

type_synonym uchar = "8 word"
type_synonym ushort = "16 word"
type_synonym uint = "32 word"

text \<open>
  The struct \<open>VtfHeader\<close> of io-vtf.c. The float fields (reflectivity, bumpmapScale) and
  the padding arrays are never read by the loader and are left out.
\<close>

record VtfHeader =
  signature :: "uchar list"
  version0 :: uint
  version1 :: uint
  headerSize :: uint
  width :: ushort
  height :: ushort
  flags :: uint
  frames :: ushort
  firstFrame :: ushort
  highResImageFormat :: uint
  mipmapCount :: uchar
  lowResImageFormat :: uint
  lowResImageWidth :: uchar
  lowResImageHeight :: uchar
  depth :: ushort

text \<open>The values of the anonymous enum that the loader compares against.\<close>

definition IMAGE_FORMAT_RGBA8888 :: uint where "IMAGE_FORMAT_RGBA8888 = 0"
definition IMAGE_FORMAT_ABGR8888 :: uint where "IMAGE_FORMAT_ABGR8888 = 1"
definition IMAGE_FORMAT_RGB888 :: uint where "IMAGE_FORMAT_RGB888 = 2"
definition IMAGE_FORMAT_BGR888 :: uint where "IMAGE_FORMAT_BGR888 = 3"
definition IMAGE_FORMAT_RGB565 :: uint where "IMAGE_FORMAT_RGB565 = 4"
definition IMAGE_FORMAT_I8 :: uint where "IMAGE_FORMAT_I8 = 5"
definition IMAGE_FORMAT_IA88 :: uint where "IMAGE_FORMAT_IA88 = 6"
definition IMAGE_FORMAT_P8 :: uint where "IMAGE_FORMAT_P8 = 7"
definition IMAGE_FORMAT_A8 :: uint where "IMAGE_FORMAT_A8 = 8"
definition IMAGE_FORMAT_RGB888_BLUESCREEN :: uint where "IMAGE_FORMAT_RGB888_BLUESCREEN = 9"
definition IMAGE_FORMAT_BGR888_BLUESCREEN :: uint where "IMAGE_FORMAT_BGR888_BLUESCREEN = 10"
definition IMAGE_FORMAT_ARGB8888 :: uint where "IMAGE_FORMAT_ARGB8888 = 11"
definition IMAGE_FORMAT_BGRA8888 :: uint where "IMAGE_FORMAT_BGRA8888 = 12"
definition IMAGE_FORMAT_DXT1 :: uint where "IMAGE_FORMAT_DXT1 = 13"
definition IMAGE_FORMAT_DXT3 :: uint where "IMAGE_FORMAT_DXT3 = 14"
definition IMAGE_FORMAT_DXT5 :: uint where "IMAGE_FORMAT_DXT5 = 15"

section \<open>The mip address calculator\<close>

text \<open>
  C's \<open>x >> n\<close> on a 32-bit operand. C defines it for \<open>n < 32\<close> only. For a larger
  count the model follows the compiled code, whose shift instruction takes the count
  modulo 32; every statement below that relies on the value of a shift is stated for
  counts below 32.
\<close>

definition shr :: "uint \<Rightarrow> uint \<Rightarrow> uint" where
  "shr x n = drop_bit (unat n mod 32) x"

text \<open>
  \<open>vtf_mip_size\<close>: all arithmetic is in \<open>unsigned int\<close>, so it wraps modulo \<open>2 ^ 32\<close>.
  The \<open>switch\<close> has no default case: \<open>bytes\<close> keeps its initial 0 for every other format.
\<close>

definition vtf_mip_size :: "VtfHeader \<Rightarrow> uint \<Rightarrow> uint \<Rightarrow> uint" where
  "vtf_mip_size header mipLevel depth' =
    (let mipWidth = shr (ucast (width header)) mipLevel;
         mipHeight = shr (ucast (height header)) mipLevel;
         mipDepth = shr depth' mipLevel;
         mipWidth = (if mipWidth < 1 then 1 else mipWidth);
         mipHeight = (if mipHeight < 1 then 1 else mipHeight);
         mipDepth = (if mipDepth < 1 then 1 else mipDepth);
         fmt = highResImageFormat header;
         bytes =
           (if fmt = IMAGE_FORMAT_RGBA8888 then mipWidth * mipHeight * 4
            else if fmt = IMAGE_FORMAT_ABGR8888 then mipWidth * mipHeight * 4
            else if fmt = IMAGE_FORMAT_RGB888 then mipWidth * mipHeight * 3
            else if fmt = IMAGE_FORMAT_BGR888 then mipWidth * mipHeight * 3
            else if fmt = IMAGE_FORMAT_RGB565 then mipWidth * mipHeight * 2
            else if fmt = IMAGE_FORMAT_I8 then mipWidth * mipHeight * 1
            else if fmt = IMAGE_FORMAT_IA88 then mipWidth * mipHeight * 2
            else if fmt = IMAGE_FORMAT_A8 then mipWidth * mipHeight * 1
            else if fmt = IMAGE_FORMAT_DXT1 then ((mipWidth + 3) div 4) * ((mipHeight + 3) div 4) * 8
            else if fmt = IMAGE_FORMAT_DXT5 then ((mipWidth + 3) div 4) * ((mipHeight + 3) div 4) * 16
            else if fmt = IMAGE_FORMAT_ARGB8888 then mipWidth * mipHeight * 4
            else if fmt = IMAGE_FORMAT_BGRA8888 then mipWidth * mipHeight * 4
            else 0)
     in bytes * mipDepth)"

text \<open>
  The loop of \<open>vtf_offset\<close>: \<open>for (int i = header->mipmapCount - 1; i > mipLevel; i--)\<close>.
  The \<open>int\<close> counter is passed to \<open>vtf_mip_size\<close> as an \<open>unsigned int\<close>.
\<close>

function vtf_offset_loop :: "VtfHeader \<Rightarrow> int \<Rightarrow> int \<Rightarrow> uint \<Rightarrow> uint" where
  "vtf_offset_loop header mipLevel i offset =
    (if i > mipLevel
     then vtf_offset_loop header mipLevel (i - 1)
            (offset + vtf_mip_size header (word_of_int i) (ucast (depth header)))
     else offset)"
  by pat_completeness auto
termination
  by (relation "measure (\<lambda>(header, mipLevel, i, offset). nat (i - mipLevel))") auto

declare vtf_offset_loop.simps [simp del]

definition vtf_offset :: "VtfHeader \<Rightarrow> uint \<Rightarrow> uint \<Rightarrow> uint \<Rightarrow> int \<Rightarrow> uint" where
  "vtf_offset header frame face slice' mipLevel =
    (let facecount = (1 :: uint);
         offset = vtf_offset_loop header mipLevel (uint (mipmapCount header) - 1) 0;
         offset = offset * (ucast (frames header) * facecount);
         volume_bytes = vtf_mip_size header (word_of_int mipLevel) (ucast (depth header));
         slice_bytes = vtf_mip_size header (word_of_int mipLevel) 1;
         offset = offset + volume_bytes * (frame * facecount + face);
         offset = offset + slice_bytes * slice'
     in offset)"


section \<open>The loader's context, errors and pixel buffers\<close>

text \<open>
  \<open>VtfContext\<close>: \<open>buffer\<close> is the allocated block (its length is the allocation's size),
  of which the first \<open>buffer_data_size\<close> bytes hold the file. The callbacks and
  \<open>user_data\<close> are not data of the model: the one call made through them,
  \<open>prepared_func\<close>, is recorded in the trace of \<open>gdk_pixbuf__vtf_image_stop_load\<close>.
\<close>

record VtfContext =
  buffer :: "uchar list"
  buffer_size :: uint
  buffer_data_size :: uint

text \<open>The two codes of the library's \<open>GdkPixbufError\<close> that io-vtf.c uses, and a \<open>GError\<close>.\<close>

datatype GdkPixbufError = GDK_PIXBUF_ERROR_CORRUPT_IMAGE | GDK_PIXBUF_ERROR_INSUFFICIENT_MEMORY

record GError =
  code :: GdkPixbufError
  message :: string

text \<open>What the loader writes to standard output: \<open>printf("Unsupported VTF format - %i.\n", n)\<close>.\<close>

datatype stdout_line = Unsupported_VTF_format uint

text \<open>
  A pixel buffer of the library. \<open>gdk_pixbuf_new\<close> belongs to GdkPixbuf, not to this
  repository. It returns \<open>NULL\<close> (here \<open>None\<close>) unless width and height are both
  positive; otherwise the model takes the row stride it chooses as a parameter, and the
  pixel array starts out unwritten (no index is mapped). The allocation itself is taken
  to succeed.
\<close>

record GdkPixbuf =
  pb_has_alpha :: bool
  pb_width :: nat
  pb_height :: nat
  pb_rowstride :: uint
  pb_pixels :: "nat \<rightharpoonup> uchar"

definition gdk_pixbuf_new :: "bool \<Rightarrow> nat \<Rightarrow> nat \<Rightarrow> uint \<Rightarrow> GdkPixbuf option" where
  "gdk_pixbuf_new alpha w h stride =
    (if w = 0 \<or> h = 0 then None
     else Some \<lparr>pb_has_alpha = alpha, pb_width = w, pb_height = h, pb_rowstride = stride,
                 pb_pixels = Map.empty\<rparr>)"

text \<open>
  The state of a pixel loop: the pixel array and the read position \<open>pos\<close> (a C \<open>int\<close>).
  \<open>next_byte\<close> is \<open>context->buffer[pos++]\<close>; C does not check the index, and the model
  answers \<open>None\<close> for a read outside the allocated block.
\<close>

type_synonym decoder_state = "(nat \<rightharpoonup> uchar) \<times> int"

definition next_byte :: "VtfContext \<Rightarrow> int \<Rightarrow> (uchar \<times> int) option" where
  "next_byte context pos =
    (if 0 \<le> pos \<and> pos < int (length (buffer context))
     then Some (buffer context ! nat pos, pos + 1) else None)"

text \<open>\<open>pixels[idx] = v\<close>, the index computed in \<open>uint32_t\<close> as the source does.\<close>

definition store :: "uint \<Rightarrow> uchar \<Rightarrow> (nat \<rightharpoonup> uchar) \<Rightarrow> (nat \<rightharpoonup> uchar)" where
  "store idx v pixels = pixels(unat idx \<mapsto> v)"

text \<open>A \<open>for\<close> loop over the given counter values whose body may fail.\<close>

fun for_loop :: "'i list \<Rightarrow> ('i \<Rightarrow> 's \<Rightarrow> 's option) \<Rightarrow> 's \<Rightarrow> 's option" where
  "for_loop [] body s = Some s"
| "for_loop (i # is) body s =
    (case body i s of None \<Rightarrow> None | Some s' \<Rightarrow> for_loop is body s')"

text \<open>The counter values of \<open>for (i = 0; i < n; i += 4)\<close>.\<close>

definition by_fours :: "nat \<Rightarrow> nat list" where
  "by_fours n = filter (\<lambda>i. i mod 4 = 0) [0..<n]"

section \<open>The pixel decoders of \<open>gdk_pixbuf__vtf_load_frame\<close>\<close>

text \<open>One definition per loop body, in the order of the source's \<open>if\<close> chain.\<close>

definition rgba8888_pixel ::
  "VtfContext \<Rightarrow> uint \<Rightarrow> nat \<Rightarrow> nat \<Rightarrow> decoder_state \<Rightarrow> decoder_state option" where
  "rgba8888_pixel context stride i j = (\<lambda>(pixels, pos). do {
     (v, pos) \<leftarrow> next_byte context pos;
     let pixels = store (stride * of_nat i + 4 * of_nat j + 0) v pixels;
     (v, pos) \<leftarrow> next_byte context pos;
     let pixels = store (stride * of_nat i + 4 * of_nat j + 1) v pixels;
     (v, pos) \<leftarrow> next_byte context pos;
     let pixels = store (stride * of_nat i + 4 * of_nat j + 2) v pixels;
     (v, pos) \<leftarrow> next_byte context pos;
     let pixels = store (stride * of_nat i + 4 * of_nat j + 3) v pixels;
     Some (pixels, pos)
   })"

definition abgr8888_pixel ::
  "VtfContext \<Rightarrow> uint \<Rightarrow> nat \<Rightarrow> nat \<Rightarrow> decoder_state \<Rightarrow> decoder_state option" where
  "abgr8888_pixel context stride i j = (\<lambda>(pixels, pos). do {
     (v, pos) \<leftarrow> next_byte context pos;
     let pixels = store (stride * of_nat i + 4 * of_nat j + 3) v pixels;
     (v, pos) \<leftarrow> next_byte context pos;
     let pixels = store (stride * of_nat i + 4 * of_nat j + 2) v pixels;
     (v, pos) \<leftarrow> next_byte context pos;
     let pixels = store (stride * of_nat i + 4 * of_nat j + 1) v pixels;
     (v, pos) \<leftarrow> next_byte context pos;
     let pixels = store (stride * of_nat i + 4 * of_nat j + 0) v pixels;
     Some (pixels, pos)
   })"

definition rgb888_pixel ::
  "VtfContext \<Rightarrow> uint \<Rightarrow> nat \<Rightarrow> nat \<Rightarrow> decoder_state \<Rightarrow> decoder_state option" where
  "rgb888_pixel context stride i j = (\<lambda>(pixels, pos). do {
     (v, pos) \<leftarrow> next_byte context pos;
     let pixels = store (stride * of_nat i + 3 * of_nat j + 0) v pixels;
     (v, pos) \<leftarrow> next_byte context pos;
     let pixels = store (stride * of_nat i + 3 * of_nat j + 1) v pixels;
     (v, pos) \<leftarrow> next_byte context pos;
     let pixels = store (stride * of_nat i + 3 * of_nat j + 2) v pixels;
     Some (pixels, pos)
   })"

definition bgr888_pixel ::
  "VtfContext \<Rightarrow> uint \<Rightarrow> nat \<Rightarrow> nat \<Rightarrow> decoder_state \<Rightarrow> decoder_state option" where
  "bgr888_pixel context stride i j = (\<lambda>(pixels, pos). do {
     (v, pos) \<leftarrow> next_byte context pos;
     let pixels = store (stride * of_nat i + 3 * of_nat j + 2) v pixels;
     (v, pos) \<leftarrow> next_byte context pos;
     let pixels = store (stride * of_nat i + 3 * of_nat j + 1) v pixels;
     (v, pos) \<leftarrow> next_byte context pos;
     let pixels = store (stride * of_nat i + 3 * of_nat j + 0) v pixels;
     Some (pixels, pos)
   })"

text \<open>
  The expansion of a packed RGB565 colour, written out five times in the source
  (\<open>r = (c0 >> 11) & 31; r = (r << 3) | (r >> 5);\<close> and so on), on \<open>uint16_t\<close>.
\<close>

definition rgb565_red :: "ushort \<Rightarrow> ushort" where
  "rgb565_red c = (let r = drop_bit 11 c AND 31 in push_bit 3 r OR drop_bit 5 r)"

definition rgb565_green :: "ushort \<Rightarrow> ushort" where
  "rgb565_green c = (let g = drop_bit 5 c AND 63 in push_bit 2 g OR drop_bit 6 g)"

definition rgb565_blue :: "ushort \<Rightarrow> ushort" where
  "rgb565_blue c = (let b = drop_bit 0 c AND 31 in push_bit 3 b OR drop_bit 5 b)"

definition rgb565_pixel ::
  "VtfContext \<Rightarrow> uint \<Rightarrow> nat \<Rightarrow> nat \<Rightarrow> decoder_state \<Rightarrow> decoder_state option" where
  "rgb565_pixel context stride i j = (\<lambda>(pixels, pos). do {
     (v, pos) \<leftarrow> next_byte context pos;
     let c0 = (ucast v :: ushort);
     (v, pos) \<leftarrow> next_byte context pos;
     let c0 = c0 OR push_bit 8 (ucast v);
     let r = rgb565_red c0;
     let g = rgb565_green c0;
     let b = rgb565_blue c0;
     let pixels = store (stride * of_nat i + 3 * of_nat j + 0) (ucast r) pixels;
     let pixels = store (stride * of_nat i + 3 * of_nat j + 1) (ucast g) pixels;
     let pixels = store (stride * of_nat i + 3 * of_nat j + 2) (ucast b) pixels;
     Some (pixels, pos)
   })"

definition i8_pixel ::
  "VtfContext \<Rightarrow> uint \<Rightarrow> nat \<Rightarrow> nat \<Rightarrow> decoder_state \<Rightarrow> decoder_state option" where
  "i8_pixel context stride i j = (\<lambda>(pixels, pos). do {
     (v, pos) \<leftarrow> next_byte context pos;
     let pixels = store (stride * of_nat i + 3 * of_nat j + 0) v pixels;
     let pixels = store (stride * of_nat i + 3 * of_nat j + 1) v pixels;
     let pixels = store (stride * of_nat i + 3 * of_nat j + 2) v pixels;
     Some (pixels, pos)
   })"

definition ia88_pixel ::
  "VtfContext \<Rightarrow> uint \<Rightarrow> nat \<Rightarrow> nat \<Rightarrow> decoder_state \<Rightarrow> decoder_state option" where
  "ia88_pixel context stride i j = (\<lambda>(pixels, pos). do {
     (v, pos) \<leftarrow> next_byte context pos;
     let pixels = store (stride * of_nat i + 4 * of_nat j + 0) v pixels;
     let pixels = store (stride * of_nat i + 4 * of_nat j + 1) v pixels;
     let pixels = store (stride * of_nat i + 4 * of_nat j + 2) v pixels;
     (a, pos) \<leftarrow> next_byte context pos;
     let pixels = store (stride * of_nat i + 4 * of_nat j + 3) a pixels;
     Some (pixels, pos)
   })"

definition a8_pixel ::
  "VtfContext \<Rightarrow> uint \<Rightarrow> nat \<Rightarrow> nat \<Rightarrow> decoder_state \<Rightarrow> decoder_state option" where
  "a8_pixel context stride i j = (\<lambda>(pixels, pos). do {
     let pixels = store (stride * of_nat i + 4 * of_nat j + 0) 255 pixels;
     let pixels = store (stride * of_nat i + 4 * of_nat j + 1) 255 pixels;
     let pixels = store (stride * of_nat i + 4 * of_nat j + 2) 255 pixels;
     (a, pos) \<leftarrow> next_byte context pos;
     let pixels = store (stride * of_nat i + 4 * of_nat j + 3) a pixels;
     Some (pixels, pos)
   })"

definition argb8888_pixel ::
  "VtfContext \<Rightarrow> uint \<Rightarrow> nat \<Rightarrow> nat \<Rightarrow> decoder_state \<Rightarrow> decoder_state option" where
  "argb8888_pixel context stride i j = (\<lambda>(pixels, pos). do {
     (v, pos) \<leftarrow> next_byte context pos;
     let pixels = store (stride * of_nat i + 4 * of_nat j + 1) v pixels;
     (v, pos) \<leftarrow> next_byte context pos;
     let pixels = store (stride * of_nat i + 4 * of_nat j + 2) v pixels;
     (v, pos) \<leftarrow> next_byte context pos;
     let pixels = store (stride * of_nat i + 4 * of_nat j + 3) v pixels;
     (v, pos) \<leftarrow> next_byte context pos;
     let pixels = store (stride * of_nat i + 4 * of_nat j + 0) v pixels;
     Some (pixels, pos)
   })"

definition bgra8888_pixel ::
  "VtfContext \<Rightarrow> uint \<Rightarrow> nat \<Rightarrow> nat \<Rightarrow> decoder_state \<Rightarrow> decoder_state option" where
  "bgra8888_pixel context stride i j = (\<lambda>(pixels, pos). do {
     (v, pos) \<leftarrow> next_byte context pos;
     let pixels = store (stride * of_nat i + 4 * of_nat j + 2) v pixels;
     (v, pos) \<leftarrow> next_byte context pos;
     let pixels = store (stride * of_nat i + 4 * of_nat j + 1) v pixels;
     (v, pos) \<leftarrow> next_byte context pos;
     let pixels = store (stride * of_nat i + 4 * of_nat j + 0) v pixels;
     (v, pos) \<leftarrow> next_byte context pos;
     let pixels = store (stride * of_nat i + 4 * of_nat j + 3) v pixels;
     Some (pixels, pos)
   })"


subsection \<open>DXT1\<close>

text \<open>
  The four-entry palette of a DXT1 block (the arrays \<open>r\<close>, \<open>g\<close>, \<open>b\<close>, \<open>a\<close> of the
  source), from the two packed endpoints. The interpolations are computed in \<open>int\<close>
  and stored in \<open>uint16_t\<close>.
\<close>

definition dxt1_palette ::
  "ushort \<Rightarrow> ushort \<Rightarrow> ushort list \<times> ushort list \<times> ushort list \<times> ushort list" where
  "dxt1_palette c0 c1 =
    (let r0 = rgb565_red c0; g0 = rgb565_green c0; b0 = rgb565_blue c0;
         r1 = rgb565_red c1; g1 = rgb565_green c1; b1 = rgb565_blue c1;
         a0 = 255; a1 = 255
     in if c0 > c1
        then ([r0, r1, word_of_int ((4 * uint r0 + 2 * uint r1 + 3) div 6),
                       word_of_int ((2 * uint r0 + 4 * uint r1 + 3) div 6)],
              [g0, g1, word_of_int ((4 * uint g0 + 2 * uint g1 + 3) div 6),
                       word_of_int ((2 * uint g0 + 4 * uint g1 + 3) div 6)],
              [b0, b1, word_of_int ((4 * uint b0 + 2 * uint b1 + 3) div 6),
                       word_of_int ((2 * uint b0 + 4 * uint b1 + 3) div 6)],
              [a0, a1, 255, 255])
        else ([r0, r1, word_of_int ((uint r0 + uint r1 + 1) div 2), 0],
              [g0, g1, word_of_int ((uint g0 + uint g1 + 1) div 2), 0],
              [b0, b1, word_of_int ((uint b0 + uint b1 + 1) div 2), 0],
              [a0, a1, 255, 0]))"

text \<open>The two inner loops over \<open>ii\<close> and \<open>jj\<close>: sixteen texels, two selector bits each.\<close>

definition dxt1_texels ::
  "uint \<Rightarrow> nat \<Rightarrow> nat \<Rightarrow> ushort list \<Rightarrow> ushort list \<Rightarrow> ushort list \<Rightarrow> ushort list \<Rightarrow>
   (nat \<rightharpoonup> uchar) \<times> uint \<Rightarrow> (nat \<rightharpoonup> uchar) \<times> uint" where
  "dxt1_texels stride i j r g b a =
    fold (\<lambda>ii. fold (\<lambda>jj (pixels, sel).
      (let pixels = store (stride * of_nat (i + ii) + 4 * of_nat (j + jj) + 0)
                      (ucast (r ! unat (sel AND 3))) pixels;
           pixels = store (stride * of_nat (i + ii) + 4 * of_nat (j + jj) + 1)
                      (ucast (g ! unat (sel AND 3))) pixels;
           pixels = store (stride * of_nat (i + ii) + 4 * of_nat (j + jj) + 2)
                      (ucast (b ! unat (sel AND 3))) pixels;
           pixels = store (stride * of_nat (i + ii) + 4 * of_nat (j + jj) + 3)
                      (ucast (a ! unat (sel AND 3))) pixels
       in (pixels, drop_bit 2 sel))) [0..<4]) [0..<4]"

definition dxt1_block ::
  "VtfContext \<Rightarrow> uint \<Rightarrow> nat \<Rightarrow> nat \<Rightarrow> decoder_state \<Rightarrow> decoder_state option" where
  "dxt1_block context stride i j = (\<lambda>(pixels, pos). do {
     (v, pos) \<leftarrow> next_byte context pos;
     let c0 = (ucast v :: ushort);
     (v, pos) \<leftarrow> next_byte context pos;
     let c0 = c0 OR push_bit 8 (ucast v);
     (v, pos) \<leftarrow> next_byte context pos;
     let c1 = (ucast v :: ushort);
     (v, pos) \<leftarrow> next_byte context pos;
     let c1 = c1 OR push_bit 8 (ucast v);
     let (r, g, b, a) = dxt1_palette c0 c1;
     (v, pos) \<leftarrow> next_byte context pos;
     let sel = (ucast v :: uint);
     (v, pos) \<leftarrow> next_byte context pos;
     let sel = sel OR push_bit 8 (ucast v);
     (v, pos) \<leftarrow> next_byte context pos;
     let sel = sel OR push_bit 16 (ucast v);
     (v, pos) \<leftarrow> next_byte context pos;
     let sel = sel OR push_bit 24 (ucast v);
     let (pixels, sel) = dxt1_texels stride i j r g b a (pixels, sel);
     Some (pixels, pos)
   })"

subsection \<open>DXT5\<close>

text \<open>The eight-entry alpha palette (the array \<open>a\<close> of the first inner block).\<close>

definition dxt5_alphas :: "ushort \<Rightarrow> ushort \<Rightarrow> ushort list" where
  "dxt5_alphas a0 a1 =
    (if a0 > a1
     then [a0, a1,
           word_of_int ((12 * uint a0 + 2 * uint a1 + 7) div 14),
           word_of_int ((10 * uint a0 + 4 * uint a1 + 7) div 14),
           word_of_int ((8 * uint a0 + 6 * uint a1 + 7) div 14),
           word_of_int ((6 * uint a0 + 8 * uint a1 + 7) div 14),
           word_of_int ((4 * uint a0 + 10 * uint a1 + 7) div 14),
           word_of_int ((2 * uint a0 + 12 * uint a1 + 7) div 14)]
     else [a0, a1,
           word_of_int ((8 * uint a0 + 2 * uint a1 + 5) div 10),
           word_of_int ((6 * uint a0 + 4 * uint a1 + 5) div 10),
           word_of_int ((4 * uint a0 + 6 * uint a1 + 5) div 10),
           word_of_int ((2 * uint a0 + 8 * uint a1 + 5) div 10),
           0, 255])"

definition dxt5_alpha_texels ::
  "uint \<Rightarrow> nat \<Rightarrow> nat \<Rightarrow> ushort list \<Rightarrow>
   (nat \<rightharpoonup> uchar) \<times> 64 word \<Rightarrow> (nat \<rightharpoonup> uchar) \<times> 64 word" where
  "dxt5_alpha_texels stride i j a =
    fold (\<lambda>ii. fold (\<lambda>jj (pixels, sel).
      (let pixels = store (stride * of_nat (i + ii) + 4 * of_nat (j + jj) + 3)
                      (ucast (a ! unat (sel AND 7))) pixels
       in (pixels, drop_bit 3 sel))) [0..<4]) [0..<4]"

text \<open>The colour palette of the second inner block: always the four-colour interpolation.\<close>

definition dxt5_palette ::
  "ushort \<Rightarrow> ushort \<Rightarrow> ushort list \<times> ushort list \<times> ushort list" where
  "dxt5_palette c0 c1 =
    (let r0 = rgb565_red c0; g0 = rgb565_green c0; b0 = rgb565_blue c0;
         r1 = rgb565_red c1; g1 = rgb565_green c1; b1 = rgb565_blue c1
     in ([r0, r1, word_of_int ((4 * uint r0 + 2 * uint r1 + 3) div 6),
                  word_of_int ((2 * uint r0 + 4 * uint r1 + 3) div 6)],
         [g0, g1, word_of_int ((4 * uint g0 + 2 * uint g1 + 3) div 6),
                  word_of_int ((2 * uint g0 + 4 * uint g1 + 3) div 6)],
         [b0, b1, word_of_int ((4 * uint b0 + 2 * uint b1 + 3) div 6),
                  word_of_int ((2 * uint b0 + 4 * uint b1 + 3) div 6)]))"

definition dxt5_colour_texels ::
  "uint \<Rightarrow> nat \<Rightarrow> nat \<Rightarrow> ushort list \<Rightarrow> ushort list \<Rightarrow> ushort list \<Rightarrow>
   (nat \<rightharpoonup> uchar) \<times> uint \<Rightarrow> (nat \<rightharpoonup> uchar) \<times> uint" where
  "dxt5_colour_texels stride i j r g b =
    fold (\<lambda>ii. fold (\<lambda>jj (pixels, sel).
      (let pixels = store (stride * of_nat (i + ii) + 4 * of_nat (j + jj) + 0)
                      (ucast (r ! unat (sel AND 3))) pixels;
           pixels = store (stride * of_nat (i + ii) + 4 * of_nat (j + jj) + 1)
                      (ucast (g ! unat (sel AND 3))) pixels;
           pixels = store (stride * of_nat (i + ii) + 4 * of_nat (j + jj) + 2)
                      (ucast (b ! unat (sel AND 3))) pixels
       in (pixels, drop_bit 2 sel))) [0..<4]) [0..<4]"

definition dxt5_block ::
  "VtfContext \<Rightarrow> uint \<Rightarrow> nat \<Rightarrow> nat \<Rightarrow> decoder_state \<Rightarrow> decoder_state option" where
  "dxt5_block context stride i j = (\<lambda>(pixels, pos). do {
     (v, pos) \<leftarrow> next_byte context pos;
     let a0 = (ucast v :: ushort);
     (v, pos) \<leftarrow> next_byte context pos;
     let a1 = (ucast v :: ushort);
     let a = dxt5_alphas a0 a1;
     (v, pos) \<leftarrow> next_byte context pos;
     let asel = (ucast v :: 64 word);
     (v, pos) \<leftarrow> next_byte context pos;
     let asel = asel OR push_bit 8 (ucast v);
     (v, pos) \<leftarrow> next_byte context pos;
     let asel = asel OR push_bit 16 (ucast v);
     (v, pos) \<leftarrow> next_byte context pos;
     let asel = asel OR push_bit 24 (ucast v);
     (v, pos) \<leftarrow> next_byte context pos;
     let asel = asel OR push_bit 32 (ucast v);
     (v, pos) \<leftarrow> next_byte context pos;
     let asel = asel OR push_bit 40 (ucast v);
     let (pixels, asel) = dxt5_alpha_texels stride i j a (pixels, asel);
     (v, pos) \<leftarrow> next_byte context pos;
     let c0 = (ucast v :: ushort);
     (v, pos) \<leftarrow> next_byte context pos;
     let c0 = c0 OR push_bit 8 (ucast v);
     (v, pos) \<leftarrow> next_byte context pos;
     let c1 = (ucast v :: ushort);
     (v, pos) \<leftarrow> next_byte context pos;
     let c1 = c1 OR push_bit 8 (ucast v);
     let (r, g, b) = dxt5_palette c0 c1;
     (v, pos) \<leftarrow> next_byte context pos;
     let sel = (ucast v :: uint);
     (v, pos) \<leftarrow> next_byte context pos;
     let sel = sel OR push_bit 8 (ucast v);
     (v, pos) \<leftarrow> next_byte context pos;
     let sel = sel OR push_bit 16 (ucast v);
     (v, pos) \<leftarrow> next_byte context pos;
     let sel = sel OR push_bit 24 (ucast v);
     let (pixels, sel) = dxt5_colour_texels stride i j r g b (pixels, sel);
     Some (pixels, pos)
   })"


section \<open>\<open>gdk_pixbuf__vtf_load_frame\<close>\<close>

text \<open>
  What \<open>gdk_pixbuf__vtf_load_frame\<close> returns: the decoded frame; \<open>NULL\<close> with \<open>*error\<close>
  left as it was; or \<open>NULL\<close> after printing a line and setting \<open>*error\<close>.
\<close>

datatype load_result = Frame GdkPixbuf | No_frame | Unsupported stdout_line GError

text \<open>
  The two nested \<open>for\<close> loops over \<open>i\<close> and \<open>j\<close> that every branch runs on its new
  pixel buffer, from read position \<open>pos\<close>, and the \<open>return pixbuf\<close> that follows them.
  No branch tests the buffer it got: on \<open>NULL\<close> the stride and pixel getters fail their
  argument check, a loop body would store through the null pointer (the model answers
  \<open>None\<close>, as for a read outside the block), and when no body runs \<open>NULL\<close> is returned.
\<close>

definition decode_image ::
  "GdkPixbuf option \<Rightarrow> nat list \<Rightarrow> nat list \<Rightarrow>
   (nat \<Rightarrow> nat \<Rightarrow> decoder_state \<Rightarrow> decoder_state option) \<Rightarrow> int \<Rightarrow> load_result option" where
  "decode_image new_pixbuf rows cols body pos =
    (case new_pixbuf of
       None \<Rightarrow> if rows = [] \<or> cols = [] then Some No_frame else None
     | Some pixbuf \<Rightarrow>
         map_option (\<lambda>(pixels, pos). Frame (pixbuf\<lparr>pb_pixels := pixels\<rparr>))
           (for_loop rows (\<lambda>i. for_loop cols (\<lambda>j. body i j)) (pb_pixels pixbuf, pos)))"

text \<open>
  The result is \<open>None\<close> when an access leaves the allocated memory. \<open>stride\<close> is the row
  stride of the new buffer.
\<close>

definition gdk_pixbuf__vtf_load_frame ::
  "uint \<Rightarrow> VtfHeader \<Rightarrow> VtfContext \<Rightarrow> int \<Rightarrow> load_result option" where
  "gdk_pixbuf__vtf_load_frame stride header context pos =
    (let fmt = highResImageFormat header;
         w = unat (width header);
         h = unat (height header)
     in
     if fmt = IMAGE_FORMAT_RGBA8888 then
       decode_image (gdk_pixbuf_new True w h stride) [0..<h] [0..<w]
         (rgba8888_pixel context stride) pos
     else if fmt = IMAGE_FORMAT_ABGR8888 then
       decode_image (gdk_pixbuf_new True w h stride) [0..<h] [0..<w]
         (abgr8888_pixel context stride) pos
     else if fmt = IMAGE_FORMAT_RGB888 then
       decode_image (gdk_pixbuf_new False w h stride) [0..<h] [0..<w]
         (rgb888_pixel context stride) pos
     else if fmt = IMAGE_FORMAT_BGR888 then
       decode_image (gdk_pixbuf_new False w h stride) [0..<h] [0..<w]
         (bgr888_pixel context stride) pos
     else if fmt = IMAGE_FORMAT_RGB565 then
       decode_image (gdk_pixbuf_new False w h stride) [0..<h] [0..<w]
         (rgb565_pixel context stride) pos
     else if fmt = IMAGE_FORMAT_I8 then
       decode_image (gdk_pixbuf_new False w h stride) [0..<h] [0..<w]
         (i8_pixel context stride) pos
     else if fmt = IMAGE_FORMAT_IA88 then
       decode_image (gdk_pixbuf_new True w h stride) [0..<h] [0..<w]
         (ia88_pixel context stride) pos
     else if fmt = IMAGE_FORMAT_A8 then
       decode_image (gdk_pixbuf_new True w h stride) [0..<h] [0..<w]
         (a8_pixel context stride) pos
     else if fmt = IMAGE_FORMAT_DXT1 then
       decode_image (gdk_pixbuf_new True w h stride) (by_fours h) (by_fours w)
         (dxt1_block context stride) pos
     else if fmt = IMAGE_FORMAT_DXT5 then
       decode_image (gdk_pixbuf_new True w h stride) (by_fours h) (by_fours w)
         (dxt5_block context stride) pos
     else if fmt = IMAGE_FORMAT_ARGB8888 then
       decode_image (gdk_pixbuf_new True w h stride) [0..<h] [0..<w]
         (argb8888_pixel context stride) pos
     else if fmt = IMAGE_FORMAT_BGRA8888 then
       decode_image (gdk_pixbuf_new True w h stride) [0..<h] [0..<w]
         (bgra8888_pixel context stride) pos
     else Some (Unsupported (Unsupported_VTF_format fmt)
            \<lparr>code = GDK_PIXBUF_ERROR_CORRUPT_IMAGE, message = ''Can't read this yet.''\<rparr>))"

section \<open>\<open>gdk_pixbuf__vtf_image_stop_load\<close>\<close>

text \<open>
  \<open>memcpy(&header, context->buffer, sizeof(header))\<close>: the fields at the offsets the C
  struct gives them (4-byte \<open>int\<close>, 2-byte \<open>short\<close>, each field aligned to its size, least
  significant byte first), 68 bytes in all.
\<close>

definition le16 :: "uchar list \<Rightarrow> nat \<Rightarrow> ushort" where
  "le16 bs k = ucast (bs ! k) OR push_bit 8 (ucast (bs ! (k + 1)))"

definition le32 :: "uchar list \<Rightarrow> nat \<Rightarrow> uint" where
  "le32 bs k = ucast (bs ! k) OR push_bit 8 (ucast (bs ! (k + 1)))
     OR push_bit 16 (ucast (bs ! (k + 2))) OR push_bit 24 (ucast (bs ! (k + 3)))"

definition sizeof_VtfHeader :: nat where
  "sizeof_VtfHeader = 68"

definition read_header :: "uchar list \<Rightarrow> VtfHeader" where
  "read_header bs =
    \<lparr>signature = take 4 bs, version0 = le32 bs 4, version1 = le32 bs 8,
     headerSize = le32 bs 12, width = le16 bs 16, height = le16 bs 18, flags = le32 bs 20,
     frames = le16 bs 24, firstFrame = le16 bs 26, highResImageFormat = le32 bs 52,
     mipmapCount = bs ! 56, lowResImageFormat = le32 bs 60, lowResImageWidth = bs ! 64,
     lowResImageHeight = bs ! 65, depth = le16 bs 66\<rparr>"

text \<open>
  What a call of \<open>gdk_pixbuf__vtf_image_stop_load\<close> leaves behind: the value returned,
  \<open>*error\<close>, the lines printed, the frames of the animation (\<open>None\<close> when there is no
  animation: never created, or dropped by \<open>g_object_unref\<close>), and the trace of the calls
  made in the frame loop, each with the loop counter \<open>i\<close> at which it is made.
\<close>

datatype call = Load_frame nat | Add_frame nat | Prepared_func nat

record stop_load_result =
  retval :: bool
  error :: "GError option"
  stdout :: "stdout_line list"
  animation :: "GdkPixbuf list option"
  calls :: "call list"

text \<open>
  The loop \<open>for (int i=0; i < header.frames; i++)\<close>, over the counter values left. A
  \<open>NULL\<close> frame drops the animation and leaves the loop, whether or not \<open>*error\<close> was set.
\<close>

fun frame_loop ::
  "uint \<Rightarrow> VtfHeader \<Rightarrow> VtfContext \<Rightarrow> uint \<Rightarrow> nat list \<Rightarrow> stop_load_result \<Rightarrow>
   stop_load_result option" where
  "frame_loop stride header context base [] res = Some res"
| "frame_loop stride header context base (i # is) res =
    (case gdk_pixbuf__vtf_load_frame stride header context
            (sint (base + vtf_offset header (of_nat i) 0 0 0)) of
       None \<Rightarrow> None
     | Some (Unsupported line err) \<Rightarrow>
         Some (res\<lparr>error := Some err, stdout := stdout res @ [line], animation := None,
                   calls := calls res @ [Load_frame i]\<rparr>)
     | Some No_frame \<Rightarrow>
         Some (res\<lparr>animation := None, calls := calls res @ [Load_frame i]\<rparr>)
     | Some (Frame pixbuf) \<Rightarrow>
         frame_loop stride header context base is
           (res\<lparr>animation := map_option (\<lambda>fs. fs @ [pixbuf]) (animation res),
                 calls := calls res @ [Load_frame i, Add_frame i]
                            @ (if i = 0 then [Prepared_func i] else [])\<rparr>))"

definition gdk_pixbuf__vtf_image_stop_load :: "uint \<Rightarrow> VtfContext \<Rightarrow> stop_load_result option" where
  "gdk_pixbuf__vtf_image_stop_load stride context =
    (if length (buffer context) < sizeof_VtfHeader then None
     else
       let header = read_header (buffer context) in
       if signature header ! 0 \<noteq> 0x56 \<or> signature header ! 1 \<noteq> 0x54
          \<or> signature header ! 2 \<noteq> 0x46 \<or> signature header ! 3 \<noteq> 0
          \<or> frames header = 0
       then Some \<lparr>retval = False,
                  error = Some \<lparr>code = GDK_PIXBUF_ERROR_CORRUPT_IMAGE,
                                message = ''File corrupt or incomplete''\<rparr>,
                  stdout = [], animation = None, calls = []\<rparr>
       else
         let header = (if version0 header * 256 + version1 header < 0x0702
                       then header\<lparr>depth := 1\<rparr> else header);
             fulldata = vtf_offset header 0 0 0 (- 1);
             base = buffer_data_size context - fulldata
         in frame_loop stride header context base [0..<unat (frames header)]
              \<lparr>retval = True, error = None, stdout = [], animation = Some [], calls = []\<rparr>)"

section \<open>The specification's mip size\<close>

text \<open>
  The mip size as the specification words it, on natural numbers: the per-format cost of
  a slice of \<open>w\<close> by \<open>h\<close> pixels, and \<open>mipSize(level, depth)\<close>.
\<close>

definition ceil_div4 :: "nat \<Rightarrow> nat" where
  "ceil_div4 n = (if n mod 4 = 0 then n div 4 else n div 4 + 1)"

definition slice_cost :: "uint \<Rightarrow> nat \<Rightarrow> nat \<Rightarrow> nat" where
  "slice_cost fmt w h =
    (if fmt = IMAGE_FORMAT_RGBA8888 \<or> fmt = IMAGE_FORMAT_ABGR8888
        \<or> fmt = IMAGE_FORMAT_ARGB8888 \<or> fmt = IMAGE_FORMAT_BGRA8888 then w * h * 4
     else if fmt = IMAGE_FORMAT_RGB888 \<or> fmt = IMAGE_FORMAT_BGR888 then w * h * 3
     else if fmt = IMAGE_FORMAT_RGB565 \<or> fmt = IMAGE_FORMAT_IA88 then w * h * 2
     else if fmt = IMAGE_FORMAT_I8 \<or> fmt = IMAGE_FORMAT_A8 then w * h * 1
     else if fmt = IMAGE_FORMAT_DXT1 then ceil_div4 w * ceil_div4 h * 8
     else if fmt = IMAGE_FORMAT_DXT5 then ceil_div4 w * ceil_div4 h * 16
     else 0)"

definition mipSize :: "VtfHeader \<Rightarrow> nat \<Rightarrow> nat \<Rightarrow> nat" where
  "mipSize header level depth' =
    (let mipWidth = max 1 (unat (width header) div 2 ^ level);
         mipHeight = max 1 (unat (height header) div 2 ^ level);
         mipDepth = max 1 (depth' div 2 ^ level)
     in slice_cost (highResImageFormat header) mipWidth mipHeight * mipDepth)"


text \<open>
  The total byte length of the high-resolution region as the specification defines it:
  every mip level, for every frame.
\<close>

definition regionLength :: "VtfHeader \<Rightarrow> nat" where
  "regionLength header =
    (\<Sum>k<unat (mipmapCount header). mipSize header k (unat (depth header)))
      * unat (frames header)"

section \<open>The specification's formats and errors\<close>

text \<open>The twelve format values the specification lists as supported.\<close>

definition supported_format :: "uint \<Rightarrow> bool" where
  "supported_format fmt \<longleftrightarrow>
    fmt \<in> {IMAGE_FORMAT_RGBA8888, IMAGE_FORMAT_ABGR8888, IMAGE_FORMAT_RGB888,
           IMAGE_FORMAT_BGR888, IMAGE_FORMAT_RGB565, IMAGE_FORMAT_I8, IMAGE_FORMAT_IA88,
           IMAGE_FORMAT_A8, IMAGE_FORMAT_DXT1, IMAGE_FORMAT_DXT5, IMAGE_FORMAT_ARGB8888,
           IMAGE_FORMAT_BGRA8888}"

text \<open>
  The two errors the loader sets: the one of the header validation, which is the
  specification's CorruptContainer, and the one of the last branch of
  \<open>gdk_pixbuf__vtf_load_frame\<close>.
\<close>

definition corrupt_error :: GError where
  "corrupt_error =
    \<lparr>code = GDK_PIXBUF_ERROR_CORRUPT_IMAGE, message = ''File corrupt or incomplete''\<rparr>"

definition cannot_read_error :: GError where
  "cannot_read_error =
    \<lparr>code = GDK_PIXBUF_ERROR_CORRUPT_IMAGE, message = ''Can't read this yet.''\<rparr>"

text \<open>The header validation of \<open>gdk_pixbuf__vtf_image_stop_load\<close>, on the bytes of the buffer.\<close>

definition header_valid :: "uchar list \<Rightarrow> bool" where
  "header_valid bs \<longleftrightarrow> take 4 bs = [0x56, 0x54, 0x46, 0] \<and> frames (read_header bs) \<noteq> 0"

text \<open>
  The header the frame loop works with (a version below 7.2 forces \<open>depth = 1\<close>), the
  start of the high-resolution region, \<open>base = buffer_data_size - fulldata\<close>, and the
  position handed to \<open>gdk_pixbuf__vtf_load_frame\<close> for frame \<open>i\<close>.
\<close>

definition decoded_header :: "uchar list \<Rightarrow> VtfHeader" where
  "decoded_header bs =
    (let header = read_header bs
     in if version0 header * 256 + version1 header < 0x0702
        then header\<lparr>depth := 1\<rparr> else header)"

definition region_base :: "VtfContext \<Rightarrow> uint" where
  "region_base context =
    buffer_data_size context - vtf_offset (decoded_header (buffer context)) 0 0 0 (- 1)"

definition frame_pos :: "VtfContext \<Rightarrow> nat \<Rightarrow> int" where
  "frame_pos context i =
    sint (region_base context + vtf_offset (decoded_header (buffer context)) (of_nat i) 0 0 0)"

text \<open>The calls of a frame loop that decodes every frame with counter in \<open>is\<close>.\<close>

definition frame_calls :: "nat list \<Rightarrow> call list" where
  "frame_calls is =
    concat (map (\<lambda>i. [Load_frame i, Add_frame i] @ (if i = 0 then [Prepared_func i] else [])) is)"

section \<open>The specification's pixel rules\<close>

text \<open>
  The pixel at row \<open>y\<close> and column \<open>x\<close> of a four-channel buffer, as the values of its
  R, G, B and A bytes (\<open>None\<close> while one of them is unwritten).
\<close>

definition pixel_rgba :: "GdkPixbuf \<Rightarrow> nat \<Rightarrow> nat \<Rightarrow> (nat \<times> nat \<times> nat \<times> nat) option" where
  "pixel_rgba pixbuf y x =
    (let k = unat (pb_rowstride pixbuf) * y + 4 * x
     in case (pb_pixels pixbuf k, pb_pixels pixbuf (k + 1), pb_pixels pixbuf (k + 2),
              pb_pixels pixbuf (k + 3)) of
          (Some r, Some g, Some b, Some a) \<Rightarrow> Some (unat r, unat g, unat b, unat a)
        | _ \<Rightarrow> None)"

text \<open>The value of \<open>n\<close> bytes from index \<open>k\<close> of the buffer, least significant byte first.\<close>

fun le_nat :: "uchar list \<Rightarrow> nat" where
  "le_nat [] = 0"
| "le_nat (b # bs) = unat b + 256 * le_nat bs"

definition bytes_at :: "VtfContext \<Rightarrow> nat \<Rightarrow> nat \<Rightarrow> nat" where
  "bytes_at context k n = le_nat (take n (drop k (buffer context)))"

text \<open>
  The RGB565 rule: the 5, 6 and 5 bit fields of a packed colour, each expanded to 8 bits
  by \<open>(v << 3) | (v >> 5)\<close> and \<open>(v << 2) | (v >> 6)\<close>.
\<close>

definition expand5 :: "nat \<Rightarrow> nat" where
  "expand5 v = push_bit 3 v OR drop_bit 5 v"

definition expand6 :: "nat \<Rightarrow> nat" where
  "expand6 v = push_bit 2 v OR drop_bit 6 v"

definition rgb565_channels :: "nat \<Rightarrow> nat \<times> nat \<times> nat" where
  "rgb565_channels c =
    (expand5 (drop_bit 11 c AND 31), expand6 (drop_bit 5 c AND 63), expand5 (c AND 31))"

text \<open>
  The DXT1 palette of the specification as (R, G, B, A) entries: the opaque branch for
  \<open>c0 > c1\<close>, the one-bit transparency branch otherwise.
\<close>

definition opaque_palette :: "nat \<Rightarrow> nat \<Rightarrow> (nat \<times> nat \<times> nat \<times> nat) list" where
  "opaque_palette c0 c1 =
    (let (r0, g0, b0) = rgb565_channels c0; (r1, g1, b1) = rgb565_channels c1
     in [(r0, g0, b0, 255), (r1, g1, b1, 255),
         ((4 * r0 + 2 * r1 + 3) div 6, (4 * g0 + 2 * g1 + 3) div 6,
          (4 * b0 + 2 * b1 + 3) div 6, 255),
         ((2 * r0 + 4 * r1 + 3) div 6, (2 * g0 + 4 * g1 + 3) div 6,
          (2 * b0 + 4 * b1 + 3) div 6, 255)])"

definition transparent_palette :: "nat \<Rightarrow> nat \<Rightarrow> (nat \<times> nat \<times> nat \<times> nat) list" where
  "transparent_palette c0 c1 =
    (let (r0, g0, b0) = rgb565_channels c0; (r1, g1, b1) = rgb565_channels c1
     in [(r0, g0, b0, 255), (r1, g1, b1, 255),
         ((r0 + r1 + 1) div 2, (g0 + g1 + 1) div 2, (b0 + b1 + 1) div 2, 255),
         (0, 0, 0, 0)])"

definition dxt1_spec_palette :: "nat \<Rightarrow> nat \<Rightarrow> (nat \<times> nat \<times> nat \<times> nat) list" where
  "dxt1_spec_palette c0 c1 =
    (if c0 > c1 then opaque_palette c0 c1 else transparent_palette c0 c1)"

text \<open>
  The palette index of texel \<open>t\<close> (0 to 15, in raster order within the block) in a
  selector with \<open>bits\<close> bits per texel: the low bits after \<open>t\<close> shifts.
\<close>

definition selector_index :: "nat \<Rightarrow> nat \<Rightarrow> nat \<Rightarrow> nat" where
  "selector_index bits sel t = drop_bit (bits * t) sel AND (2 ^ bits - 1)"

text \<open>The pixel the specification gives texel \<open>t\<close> of a DXT1 block.\<close>

definition dxt1_spec_texel :: "nat \<Rightarrow> nat \<Rightarrow> nat \<Rightarrow> nat \<Rightarrow> nat \<times> nat \<times> nat \<times> nat" where
  "dxt1_spec_texel c0 c1 sel t = dxt1_spec_palette c0 c1 ! selector_index 2 sel t"

text \<open>
  The DXT5 alpha palette of the specification, and the pixel it gives texel \<open>t\<close>: the
  colour of the opaque DXT1 palette, the alpha of the alpha palette.
\<close>

definition dxt5_spec_alphas :: "nat \<Rightarrow> nat \<Rightarrow> nat list" where
  "dxt5_spec_alphas a0 a1 =
    (if a0 > a1
     then [a0, a1, (12 * a0 + 2 * a1 + 7) div 14, (10 * a0 + 4 * a1 + 7) div 14,
           (8 * a0 + 6 * a1 + 7) div 14, (6 * a0 + 8 * a1 + 7) div 14,
           (4 * a0 + 10 * a1 + 7) div 14, (2 * a0 + 12 * a1 + 7) div 14]
     else [a0, a1, (8 * a0 + 2 * a1 + 5) div 10, (6 * a0 + 4 * a1 + 5) div 10,
           (4 * a0 + 6 * a1 + 5) div 10, (2 * a0 + 8 * a1 + 5) div 10, 0, 255])"

definition dxt5_spec_texel ::
  "nat \<Rightarrow> nat \<Rightarrow> nat \<Rightarrow> nat \<Rightarrow> nat \<Rightarrow> nat \<Rightarrow> nat \<Rightarrow> nat \<times> nat \<times> nat \<times> nat" where
  "dxt5_spec_texel a0 a1 asel c0 c1 sel t =
    (let (r, g, b, a) = opaque_palette c0 c1 ! selector_index 2 sel t
     in (r, g, b, dxt5_spec_alphas a0 a1 ! selector_index 3 asel t))"

section \<open>Auxiliary notions for the pixel loops\<close>

text \<open>The stores that the texel loops make for one texel: all four bytes, alpha, colour.\<close>

definition write_rgba ::
  "uint \<Rightarrow> nat \<Rightarrow> nat \<Rightarrow> uchar \<Rightarrow> uchar \<Rightarrow> uchar \<Rightarrow> uchar \<Rightarrow> (nat \<rightharpoonup> uchar) \<Rightarrow> (nat \<rightharpoonup> uchar)" where
  "write_rgba stride y x r g b a pixels =
    store (stride * of_nat y + 4 * of_nat x + 3) a
      (store (stride * of_nat y + 4 * of_nat x + 2) b
        (store (stride * of_nat y + 4 * of_nat x + 1) g
          (store (stride * of_nat y + 4 * of_nat x + 0) r pixels)))"

definition write_alpha ::
  "uint \<Rightarrow> nat \<Rightarrow> nat \<Rightarrow> uchar \<Rightarrow> (nat \<rightharpoonup> uchar) \<Rightarrow> (nat \<rightharpoonup> uchar)" where
  "write_alpha stride y x a pixels = store (stride * of_nat y + 4 * of_nat x + 3) a pixels"

definition write_rgb ::
  "uint \<Rightarrow> nat \<Rightarrow> nat \<Rightarrow> uchar \<Rightarrow> uchar \<Rightarrow> uchar \<Rightarrow> (nat \<rightharpoonup> uchar) \<Rightarrow> (nat \<rightharpoonup> uchar)" where
  "write_rgb stride y x r g b pixels =
    store (stride * of_nat y + 4 * of_nat x + 2) b
      (store (stride * of_nat y + 4 * of_nat x + 1) g
        (store (stride * of_nat y + 4 * of_nat x + 0) r pixels))"

text \<open>
  Byte \<open>c\<close> (0 for R to 3 for A) of entry \<open>e\<close> of the palette that the DXT1 branch
  builds, as it is stored into the pixel array; and the pixel array after the block
  whose eight bytes start at index \<open>q\<close> of the buffer.
\<close>

definition dxt1_palette_byte :: "ushort \<Rightarrow> ushort \<Rightarrow> nat \<Rightarrow> nat \<Rightarrow> uchar" where
  "dxt1_palette_byte c0 c1 c e =
    (case dxt1_palette c0 c1 of (r, g, b, a) \<Rightarrow> ucast (([r, g, b, a] ! c) ! e))"

definition dxt1_block_pixels ::
  "VtfContext \<Rightarrow> uint \<Rightarrow> nat \<Rightarrow> nat \<Rightarrow> nat \<Rightarrow> (nat \<rightharpoonup> uchar) \<Rightarrow> (nat \<rightharpoonup> uchar)" where
  "dxt1_block_pixels context stride i j q pixels =
    (case dxt1_palette (le16 (buffer context) q) (le16 (buffer context) (q + 2)) of
       (r, g, b, a) \<Rightarrow>
         fst (dxt1_texels stride i j r g b a (pixels, le32 (buffer context) (q + 4))))"

section \<open>Example inputs\<close>

text \<open>A version 7.2 header of one RGBA8888 frame of 1 by 1 pixel with one mip level.\<close>

definition example_header :: VtfHeader where
  "example_header =
    \<lparr>signature = [0x56, 0x54, 0x46, 0], version0 = 7, version1 = 2, headerSize = 80,
     width = 1, height = 1, flags = 0, frames = 1, firstFrame = 0,
     highResImageFormat = IMAGE_FORMAT_RGBA8888, mipmapCount = 1,
     lowResImageFormat = IMAGE_FORMAT_DXT1, lowResImageWidth = 0, lowResImageHeight = 0,
     depth = 1\<rparr>"

text \<open>
  The bytes of a version 7.2 file: the 68 header bytes for the given width, height, frame
  count and format (each below 256), one mip level and depth 1, followed by \<open>data\<close>; and
  a context whose buffer holds exactly such a file.
\<close>

definition example_file :: "uchar \<Rightarrow> uchar \<Rightarrow> uchar \<Rightarrow> uchar \<Rightarrow> uchar list \<Rightarrow> uchar list" where
  "example_file w h n fmt data =
    [0x56, 0x54, 0x46, 0, 7, 0, 0, 0, 2, 0, 0, 0, 80, 0, 0, 0, w, 0, h, 0, 0, 0, 0, 0,
     n, 0, 0, 0] @ replicate 24 0 @ [fmt, 0, 0, 0, 1, 0, 0, 0, 13, 0, 0, 0, 0, 0, 1, 0] @ data"

definition example_context :: "uchar list \<Rightarrow> VtfContext" where
  "example_context bs =
    \<lparr>buffer = bs, buffer_size = of_nat (length bs), buffer_data_size = of_nat (length bs)\<rparr>"

text \<open>
  Files of 1 by 1 pixel: one RGBA8888 frame; the same with no frame; the same with a
  wrong first signature byte; one frame in the formats 99 and 98; three I8 frames.
  And two headers with no data behind them: one RGBA8888 frame of width 0 and height 1,
  and one RGBA8888 frame of 16 by 16 pixels.
\<close>

definition one_pixel_context :: VtfContext where
  "one_pixel_context = example_context (example_file 1 1 1 0 [0x11, 0x22, 0x33, 0x44])"

definition zero_frames_context :: VtfContext where
  "zero_frames_context = example_context (example_file 1 1 0 0 [0x11, 0x22, 0x33, 0x44])"

definition bad_signature_context :: VtfContext where
  "bad_signature_context =
    example_context ((example_file 1 1 1 0 [0x11, 0x22, 0x33, 0x44])[0 := 0x58])"

definition format99_context :: VtfContext where
  "format99_context = example_context (example_file 1 1 1 99 [0x11, 0x22, 0x33, 0x44])"

definition format98_context :: VtfContext where
  "format98_context = example_context (example_file 1 1 1 98 [0x11, 0x22, 0x33, 0x44])"

definition three_frames_context :: VtfContext where
  "three_frames_context = example_context (example_file 1 1 3 5 [10, 20, 30])"

definition zero_width_context :: VtfContext where
  "zero_width_context = example_context (example_file 0 1 1 0 [])"

definition truncated_context :: VtfContext where
  "truncated_context = example_context (example_file 16 16 1 0 [])"

text \<open>A texture of 32768 by 32768 RGBA8888 pixels: its top mip level takes \<open>2 ^ 32\<close> bytes.\<close>

definition huge_header :: VtfHeader where
  "huge_header = example_header\<lparr>width := 32768, height := 32768\<rparr>"

text \<open>Seven frames of 16384 by 16384 RGBA8888 pixels with two mip levels.\<close>

definition seven_frames_header :: VtfHeader where
  "seven_frames_header =
    example_header\<lparr>width := 16384, height := 16384, frames := 7, mipmapCount := 2\<rparr>"

text \<open>Two frames of 4 by 4 RGBA8888 pixels with three mip levels (4, 2 and 1 pixels wide).\<close>

definition three_mips_header :: VtfHeader where
  "three_mips_header =
    example_header\<lparr>width := 4, height := 4, frames := 2, mipmapCount := 3\<rparr>"

section \<open>Facts about the mip address calculator\<close>

lemmas image_format_defs =
  IMAGE_FORMAT_RGBA8888_def IMAGE_FORMAT_ABGR8888_def IMAGE_FORMAT_RGB888_def
  IMAGE_FORMAT_BGR888_def IMAGE_FORMAT_RGB565_def IMAGE_FORMAT_I8_def
  IMAGE_FORMAT_IA88_def IMAGE_FORMAT_P8_def IMAGE_FORMAT_A8_def
  IMAGE_FORMAT_RGB888_BLUESCREEN_def IMAGE_FORMAT_BGR888_BLUESCREEN_def
  IMAGE_FORMAT_ARGB8888_def IMAGE_FORMAT_BGRA8888_def IMAGE_FORMAT_DXT1_def
  IMAGE_FORMAT_DXT3_def IMAGE_FORMAT_DXT5_def

lemma ceil_div4_eq: "ceil_div4 n = (n + 3) div 4"
  unfolding ceil_div4_def by presburger

lemma unat_clamp1: "unat (if x < 1 then 1 else x :: uint) = max 1 (unat x)"
  by (simp add: word_less_nat_alt max_def)

lemma unat_shr: "unat n < 32 \<Longrightarrow> unat (shr x n) = unat x div 2 ^ unat n"
proof -
  assume "unat n < 32"
  then have "unat (shr x n) = drop_bit (unat n) (unat x)"
    by (simp only: shr_def unat_drop_bit_eq mod_less)
  then show ?thesis
    by (simp only: drop_bit_eq_div)
qed

lemma unat_minus_1: "unat (- 1 :: uint) = 4294967295"
  by (simp add: unsigned_minus_1_eq_mask mask_eq_exp_minus_1)

lemma unat16_bound: "unat (x :: ushort) < 65536"
  using unsigned_less [of x, where 'a = nat] by simp

lemma unat_ucast16: "unat (ucast (x :: ushort) :: uint) = unat x"
proof -
  have "unat x < 2 ^ 32"
    using unat16_bound [of x] by simp
  then show ?thesis
    by (simp add: unsigned_ucast_eq take_bit_nat_eq_self)
qed

lemma mip_dim_bound: "max 1 (unat (x :: ushort) div 2 ^ n) < 65536"
proof -
  have "unat x div 2 ^ n \<le> unat x" by simp
  with unat16_bound [of x] have "unat x div 2 ^ n < 65536" by linarith
  then show ?thesis by (simp add: max_def)
qed

lemma unat_blocks:
  assumes "unat (m :: uint) < 65536"
  shows "unat ((m + 3) div 4) = (unat m + 3) div 4"
proof -
  have "unat (m + 3) = unat m + 3"
    using assms by (simp add: unat_word_ariths)
  then show ?thesis by (simp add: unat_div)
qed

lemma unat_mul3: "unat (a * b * c :: uint) = (unat a * unat b * unat c) mod 2 ^ 32"
  by (simp add: unat_word_ariths mod_mult_left_eq)

lemma unat_mul_mod:
  "unat (x :: uint) = X mod 2 ^ 32 \<Longrightarrow> unat (x * d) = (X * unat d) mod 2 ^ 32"
  by (simp add: unat_word_ariths mod_mult_left_eq)

lemma vtf_mip_size_unat:
  assumes level: "unat mipLevel < 32"
  shows "unat (vtf_mip_size header mipLevel depth') =
     mipSize header (unat mipLevel) (unat depth') mod 2 ^ 32"
proof -
  define mw where "mw = (if shr (ucast (width header)) mipLevel < 1 then 1
    else shr (ucast (width header)) mipLevel)"
  define mh where "mh = (if shr (ucast (height header)) mipLevel < 1 then 1
    else shr (ucast (height header)) mipLevel)"
  define md where "md = (if shr depth' mipLevel < 1 then 1 else shr depth' mipLevel)"
  have mw: "unat mw = max 1 (unat (width header) div 2 ^ unat mipLevel)"
    unfolding mw_def by (simp only: unat_clamp1 unat_shr [OF level] unat_ucast16)
  have mh: "unat mh = max 1 (unat (height header) div 2 ^ unat mipLevel)"
    unfolding mh_def by (simp only: unat_clamp1 unat_shr [OF level] unat_ucast16)
  have md: "unat md = max 1 (unat depth' div 2 ^ unat mipLevel)"
    unfolding md_def by (simp only: unat_clamp1 unat_shr [OF level])
  have bw: "unat mw < 65536" unfolding mw by (rule mip_dim_bound)
  have bh: "unat mh < 65536" unfolding mh by (rule mip_dim_bound)
  define bytes where "bytes =
           (let fmt = highResImageFormat header in
            if fmt = IMAGE_FORMAT_RGBA8888 then mw * mh * 4
            else if fmt = IMAGE_FORMAT_ABGR8888 then mw * mh * 4
            else if fmt = IMAGE_FORMAT_RGB888 then mw * mh * 3
            else if fmt = IMAGE_FORMAT_BGR888 then mw * mh * 3
            else if fmt = IMAGE_FORMAT_RGB565 then mw * mh * 2
            else if fmt = IMAGE_FORMAT_I8 then mw * mh * 1
            else if fmt = IMAGE_FORMAT_IA88 then mw * mh * 2
            else if fmt = IMAGE_FORMAT_A8 then mw * mh * 1
            else if fmt = IMAGE_FORMAT_DXT1 then ((mw + 3) div 4) * ((mh + 3) div 4) * 8
            else if fmt = IMAGE_FORMAT_DXT5 then ((mw + 3) div 4) * ((mh + 3) div 4) * 16
            else if fmt = IMAGE_FORMAT_ARGB8888 then mw * mh * 4
            else if fmt = IMAGE_FORMAT_BGRA8888 then mw * mh * 4
            else 0)"
  have sz: "vtf_mip_size header mipLevel depth' = bytes * md"
    by (simp add: vtf_mip_size_def Let_def bytes_def mw_def mh_def md_def)
  have bytes: "unat bytes = slice_cost (highResImageFormat header) (unat mw) (unat mh) mod 2 ^ 32"
  proof -
    have px: "unat (mw * mh * k) = (unat mw * unat mh * unat k) mod 2 ^ 32" for k
      by (rule unat_mul3)
    have bl: "unat ((mw + 3) div 4 * ((mh + 3) div 4) * k)
        = (ceil_div4 (unat mw) * ceil_div4 (unat mh) * unat k) mod 2 ^ 32" for k
      by (simp only: unat_mul3 unat_blocks [OF bw] unat_blocks [OF bh] ceil_div4_eq)
    show ?thesis
      unfolding bytes_def slice_cost_def Let_def
      by (simp only: px bl if_distrib [of unat] image_format_defs) simp
  qed
  show ?thesis
    unfolding sz mipSize_def Let_def mw [symmetric] mh [symmetric] md [symmetric]
    by (rule unat_mul_mod [OF bytes])
qed

text \<open>
  C2, as stated: the size of a mip level is the per-format cost of its slice times its
  depth. At the top level of a 32768 by 32768 RGBA8888 texture that product is \<open>2 ^ 32\<close>,
  and \<open>vtf_mip_size\<close>, computing in \<open>unsigned int\<close>, returns 0.
\<close>

theorem mip_size_exact_counterexample:
  "vtf_mip_size huge_header 0 1 = 0 \<and> mipSize huge_header 0 1 = 4294967296
   \<and> unat (vtf_mip_size huge_header 0 1) \<noteq> mipSize huge_header 0 1"
  by (simp add: vtf_mip_size_def mipSize_def slice_cost_def huge_header_def example_header_def
      shr_def image_format_defs)

text \<open>
  C2, amended: for every header and depth and every level below 32 (the range in which
  C defines the shifts), \<open>vtf_mip_size\<close> is the specification's mip size (the
  max-clamped dimensions, the per-format slice cost, times the clamped depth) reduced
  modulo \<open>2 ^ 32\<close>.
\<close>

theorem vtf_mip_size_refines_mipSize:
  assumes "unat mipLevel < 32"
  shows "unat (vtf_mip_size header mipLevel depth') =
     mipSize header (unat mipLevel) (unat depth') mod 2 ^ 32"
  using assms by (rule vtf_mip_size_unat)

theorem vtf_mip_size_refines_mipSize_witness:
  "unat (1 :: uint) < 32
   \<and> unat (vtf_mip_size three_mips_header 1 1) = 16
   \<and> mipSize three_mips_header 1 1 = 16"
proof -
  have level: "unat (1 :: uint) < 32"
    by simp
  have spec: "mipSize three_mips_header 1 1 = 16"
    by (simp add: mipSize_def slice_cost_def three_mips_header_def example_header_def
        image_format_defs)
  from vtf_mip_size_refines_mipSize [OF level, of three_mips_header 1]
  have "unat (vtf_mip_size three_mips_header 1 1) = 16"
    unfolding unat_1 spec by simp
  with level spec show ?thesis
    by (intro conjI)
qed


lemma vtf_offset_loop_sum:
  "vtf_offset_loop header mipLevel i offset =
     offset + (\<Sum>k\<in>{mipLevel<..i}. vtf_mip_size header (word_of_int k) (ucast (depth header)))"
proof (induction header mipLevel i offset rule: vtf_offset_loop.induct)
  case (1 header mipLevel i offset)
  show ?case
  proof (cases "i > mipLevel")
    case True
    then have set: "{mipLevel<..i} = insert i {mipLevel<..i - 1}"
      by auto
    have "i \<notin> {mipLevel<..i - 1}" by simp
    then show ?thesis
      using True 1 by (subst vtf_offset_loop.simps) (simp add: set add.assoc)
  next
    case False
    then show ?thesis
      by (subst vtf_offset_loop.simps) simp
  qed
qed

lemma vtf_offset_formula:
  "vtf_offset header frame face slice' mipLevel =
     (\<Sum>k\<in>{mipLevel<..uint (mipmapCount header) - 1}.
         vtf_mip_size header (word_of_int k) (ucast (depth header)))
       * (ucast (frames header) * 1)
     + vtf_mip_size header (word_of_int mipLevel) (ucast (depth header)) * (frame * 1 + face)
     + vtf_mip_size header (word_of_int mipLevel) 1 * slice'"
  by (simp add: vtf_offset_def Let_def vtf_offset_loop_sum)

lemma vtf_offset_total:
  "vtf_offset header 0 0 0 mipLevel =
     (\<Sum>k\<in>{mipLevel<..uint (mipmapCount header) - 1}.
         vtf_mip_size header (word_of_int k) (ucast (depth header)))
       * ucast (frames header)"
  by (simp add: vtf_offset_formula)

lemma vtf_offset_step:
  assumes "0 < mipmapCount header"
  shows "vtf_offset header 0 0 0 (- 1) =
     vtf_offset header 0 0 0 0
       + ucast (frames header) * vtf_mip_size header 0 (ucast (depth header))"
proof -
  have "0 < uint (mipmapCount header)"
    using assms by (simp add: word_less_def)
  then have set: "{- 1<..uint (mipmapCount header) - 1} = insert 0 {0<..uint (mipmapCount header) - 1}"
    by auto
  show ?thesis
    unfolding vtf_offset_total set by (simp add: algebra_simps)
qed

lemma unat_sum_word:
  "finite A \<Longrightarrow> unat (\<Sum>k\<in>A. f k :: uint) = (\<Sum>k\<in>A. unat (f k)) mod 2 ^ 32"
proof (induction A rule: finite_induct)
  case empty
  show ?case by simp
next
  case (insert x F)
  then show ?case
    by (simp add: unat_word_ariths mod_add_right_eq)
qed

lemma unat_level: "k < 256 \<Longrightarrow> unat (word_of_int (int k) :: uint) = k"
  by (simp add: unat_of_nat)

lemma unat_level_sum:
  assumes "- 1 \<le> l" and count: "unat (mipmapCount header) \<le> 32"
  shows "unat (\<Sum>k\<in>{l<..uint (mipmapCount header) - 1}.
            vtf_mip_size header (word_of_int k) (ucast (depth header)))
       = (\<Sum>k\<in>{l<..uint (mipmapCount header) - 1}.
            mipSize header (nat k) (unat (depth header))) mod 2 ^ 32"
proof -
  have "uint (mipmapCount header) = int (unat (mipmapCount header))"
    by simp
  with count have mc: "uint (mipmapCount header) \<le> 32"
    by linarith
  have "unat (vtf_mip_size header (word_of_int k) (ucast (depth header)))
      = mipSize header (nat k) (unat (depth header)) mod 2 ^ 32"
    if "k \<in> {l<..uint (mipmapCount header) - 1}" for k
  proof -
    from that have "l < k" "k \<le> uint (mipmapCount header) - 1" by simp_all
    with assms(1) mc have k: "0 \<le> k" "nat k < 32" by linarith+
    then have "nat k < 256" by simp
    with k(1) have u: "unat (word_of_int k :: uint) = nat k"
      using unat_level [of "nat k"] by simp
    with k(2) have "unat (word_of_int k :: uint) < 32" by simp
    from vtf_mip_size_unat [OF this] show ?thesis
      by (simp only: u unat_ucast16)
  qed
  then have eq: "(\<Sum>k\<in>{l<..uint (mipmapCount header) - 1}.
        unat (vtf_mip_size header (word_of_int k) (ucast (depth header))))
     = (\<Sum>k\<in>{l<..uint (mipmapCount header) - 1}.
        mipSize header (nat k) (unat (depth header)) mod 2 ^ 32)"
    by (rule sum.cong [OF refl])
  have "unat (\<Sum>k\<in>{l<..uint (mipmapCount header) - 1}.
            vtf_mip_size header (word_of_int k) (ucast (depth header)))
      = (\<Sum>k\<in>{l<..uint (mipmapCount header) - 1}.
        unat (vtf_mip_size header (word_of_int k) (ucast (depth header)))) mod 2 ^ 32"
    by (rule unat_sum_word) simp
  also have "\<dots> = (\<Sum>k\<in>{l<..uint (mipmapCount header) - 1}.
        mipSize header (nat k) (unat (depth header)) mod 2 ^ 32) mod 2 ^ 32"
    by (simp only: eq)
  also have "\<dots> = (\<Sum>k\<in>{l<..uint (mipmapCount header) - 1}.
        mipSize header (nat k) (unat (depth header))) mod 2 ^ 32"
    by (rule mod_sum_eq)
  finally show ?thesis .
qed

lemma level_sum_all:
  "(\<Sum>k\<in>{- 1<..uint (mipmapCount header) - 1}. mipSize header (nat k) d)
     = (\<Sum>k<unat (mipmapCount header). mipSize header k d)"
proof -
  define n where "n = unat (mipmapCount header)"
  have u: "uint (mipmapCount header) = int n"
    unfolding n_def by simp
  show ?thesis
    unfolding u n_def [symmetric]
    by (rule sum.reindex_bij_witness [where i = int and j = nat]) auto
qed

lemma unat_vtf_offset_total:
  assumes "- 1 \<le> l" and "unat (mipmapCount header) \<le> 32"
  shows "unat (vtf_offset header 0 0 0 l) =
     ((\<Sum>k\<in>{l<..uint (mipmapCount header) - 1}. mipSize header (nat k) (unat (depth header)))
        * unat (frames header)) mod 2 ^ 32"
  unfolding vtf_offset_total
  by (simp only: unat_mul_mod [OF unat_level_sum [OF assms]] unat_ucast16)

lemma unat_vtf_offset_region:
  assumes "unat (mipmapCount header) \<le> 32"
  shows "unat (vtf_offset header 0 0 0 (- 1)) = regionLength header mod 2 ^ 32"
  by (simp only: unat_vtf_offset_total [OF order_refl assms] level_sum_all regionLength_def)

lemma vtf_offset_mono:
  assumes count: "unat (mipmapCount header) \<le> 32"
    and fits: "regionLength header < 2 ^ 32" and l: "- 1 \<le> l'" "l' \<le> l"
  shows "vtf_offset header 0 0 0 l \<le> vtf_offset header 0 0 0 l'"
proof -
  let ?T = "\<lambda>l. \<Sum>k\<in>{l<..uint (mipmapCount header) - 1}. mipSize header (nat k) (unat (depth header))"
  have sub: "?T a \<le> ?T b" if "b \<le> a" for a b
    by (rule sum_mono2) (use that in auto)
  have all: "?T (- 1) * unat (frames header) = regionLength header"
    by (simp only: level_sum_all regionLength_def)
  have small: "?T a * unat (frames header) < 2 ^ 32" if "- 1 \<le> a" for a
  proof -
    have "?T a * unat (frames header) \<le> ?T (- 1) * unat (frames header)"
      by (rule mult_right_mono [OF sub [OF that]]) simp
    with all fits show ?thesis by linarith
  qed
  have l1: "- 1 \<le> l" using l by simp
  have "unat (vtf_offset header 0 0 0 l) = ?T l * unat (frames header)"
    using small [OF l1] by (simp only: unat_vtf_offset_total [OF l1 count] mod_less)
  moreover have "unat (vtf_offset header 0 0 0 l') = ?T l' * unat (frames header)"
    using small [OF l(1)] by (simp only: unat_vtf_offset_total [OF l(1) count] mod_less)
  moreover have "?T l * unat (frames header) \<le> ?T l' * unat (frames header)"
    by (rule mult_right_mono [OF sub [OF l(2)]]) simp
  ultimately show ?thesis
    by (simp only: word_le_nat_alt)
qed


text \<open>
  C1, as stated: the totals never decrease as \<open>mipLevel\<close> decreases. With seven frames of
  16384 by 16384 RGBA8888 pixels and two mip levels the sum wraps around: the offset of
  level 0 is \<open>7 * 2 ^ 28\<close>, the total for level -1 is \<open>35 * 2 ^ 28 mod 2 ^ 32 = 3 * 2 ^ 28\<close>.
\<close>

theorem vtf_offset_monotone_counterexample:
  "vtf_offset seven_frames_header 0 0 0 0 = 1879048192
   \<and> vtf_offset seven_frames_header 0 0 0 (- 1) = 805306368
   \<and> \<not> vtf_offset seven_frames_header 0 0 0 0 \<le> vtf_offset seven_frames_header 0 0 0 (- 1)"
  by (simp add: vtf_offset_def vtf_offset_loop.simps vtf_mip_size_def shr_def unat_minus_1
      seven_frames_header_def example_header_def image_format_defs)

text \<open>
  C1, amended. In \<open>unsigned int\<close> arithmetic (modulo \<open>2 ^ 32\<close>) the offset is the sum of
  the sizes of the mip levels above \<open>mipLevel\<close>, times \<open>frames * faceCount\<close> with
  \<open>faceCount = 1\<close>, plus the volume size times \<open>frame * faceCount + face\<close>, plus the slice
  size times \<open>slice\<close>; with at least one mip level, \<open>offset(0,0,0,-1)\<close> is
  \<open>offset(0,0,0,0) + frames * mipSize(0, depth)\<close>. With at most 32 mip levels (levels 0
  to 31, the range in which C defines the shifts), \<open>offset(0,0,0,-1)\<close> is the region's
  total byte length modulo \<open>2 ^ 32\<close>, and when that length is below \<open>2 ^ 32\<close> the totals
  \<open>offset(0,0,0,l)\<close> do not decrease as \<open>l\<close> decreases down to -1.
\<close>

theorem vtf_offset_spec:
  "vtf_offset header frame face slice' mipLevel =
     (\<Sum>k\<in>{mipLevel<..uint (mipmapCount header) - 1}.
         vtf_mip_size header (word_of_int k) (ucast (depth header)))
       * (ucast (frames header) * 1)
     + vtf_mip_size header (word_of_int mipLevel) (ucast (depth header)) * (frame * 1 + face)
     + vtf_mip_size header (word_of_int mipLevel) 1 * slice'
   \<and> (0 < mipmapCount header \<longrightarrow>
        vtf_offset header 0 0 0 (- 1) =
          vtf_offset header 0 0 0 0
            + ucast (frames header) * vtf_mip_size header 0 (ucast (depth header)))
   \<and> (unat (mipmapCount header) \<le> 32 \<longrightarrow>
        unat (vtf_offset header 0 0 0 (- 1)) = regionLength header mod 2 ^ 32)
   \<and> (unat (mipmapCount header) \<le> 32 \<and> regionLength header < 2 ^ 32 \<longrightarrow>
        (\<forall>l l'. - 1 \<le> l' \<and> l' \<le> l \<longrightarrow>
           vtf_offset header 0 0 0 l \<le> vtf_offset header 0 0 0 l'))"
proof (intro conjI impI allI)
  show "vtf_offset header frame face slice' mipLevel =
     (\<Sum>k\<in>{mipLevel<..uint (mipmapCount header) - 1}.
         vtf_mip_size header (word_of_int k) (ucast (depth header)))
       * (ucast (frames header) * 1)
     + vtf_mip_size header (word_of_int mipLevel) (ucast (depth header)) * (frame * 1 + face)
     + vtf_mip_size header (word_of_int mipLevel) 1 * slice'"
    by (rule vtf_offset_formula)
  show "vtf_offset header 0 0 0 (- 1) =
          vtf_offset header 0 0 0 0
            + ucast (frames header) * vtf_mip_size header 0 (ucast (depth header))"
    if "0 < mipmapCount header"
    using that by (rule vtf_offset_step)
  show "unat (vtf_offset header 0 0 0 (- 1)) = regionLength header mod 2 ^ 32"
    if "unat (mipmapCount header) \<le> 32"
    using that by (rule unat_vtf_offset_region)
  show "vtf_offset header 0 0 0 l \<le> vtf_offset header 0 0 0 l'"
    if "unat (mipmapCount header) \<le> 32 \<and> regionLength header < 2 ^ 32"
      and "- 1 \<le> l' \<and> l' \<le> l" for l l'
    using that by (intro vtf_offset_mono) simp_all
qed

theorem vtf_offset_spec_witness:
  "0 < mipmapCount three_mips_header
   \<and> unat (mipmapCount three_mips_header) \<le> 32
   \<and> regionLength three_mips_header = 168
   \<and> unat (vtf_offset three_mips_header 0 0 0 (- 1)) = 168
   \<and> vtf_offset three_mips_header 0 0 0 (- 1) =
       vtf_offset three_mips_header 0 0 0 0
         + ucast (frames three_mips_header)
           * vtf_mip_size three_mips_header 0 (ucast (depth three_mips_header))
   \<and> vtf_offset three_mips_header 0 0 0 1 \<le> vtf_offset three_mips_header 0 0 0 0"
proof -
  note spec = vtf_offset_spec [of three_mips_header 0 0 0 0]
  have mips: "0 < mipmapCount three_mips_header"
    by (simp add: three_mips_header_def example_header_def)
  have count: "unat (mipmapCount three_mips_header) \<le> 32"
    by (simp add: three_mips_header_def example_header_def)
  have len: "regionLength three_mips_header = 168"
    by (simp add: regionLength_def mipSize_def slice_cost_def three_mips_header_def
        example_header_def image_format_defs lessThan_nat_numeral lessThan_Suc)
  have fits: "regionLength three_mips_header < 2 ^ 32"
    unfolding len by simp
  have step: "vtf_offset three_mips_header 0 0 0 (- 1) =
       vtf_offset three_mips_header 0 0 0 0
         + ucast (frames three_mips_header)
           * vtf_mip_size three_mips_header 0 (ucast (depth three_mips_header))"
    using spec [THEN conjunct2, THEN conjunct1] mips by (rule mp)
  have "unat (vtf_offset three_mips_header 0 0 0 (- 1)) = regionLength three_mips_header mod 2 ^ 32"
    using spec [THEN conjunct2, THEN conjunct2, THEN conjunct1] count by (rule mp)
  then have total: "unat (vtf_offset three_mips_header 0 0 0 (- 1)) = 168"
    unfolding len by simp
  have "\<forall>l l'. - 1 \<le> l' \<and> l' \<le> l \<longrightarrow>
      vtf_offset three_mips_header 0 0 0 l \<le> vtf_offset three_mips_header 0 0 0 l'"
    using spec [THEN conjunct2, THEN conjunct2, THEN conjunct2] conjI [OF count fits]
    by (rule mp)
  then have mono: "vtf_offset three_mips_header 0 0 0 1 \<le> vtf_offset three_mips_header 0 0 0 0"
    by simp
  from mips count len total step mono show ?thesis
    by (intro conjI)
qed

section \<open>Facts about \<open>gdk_pixbuf__vtf_image_stop_load\<close>\<close>

lemma load_frame_unsupported:
  "\<not> supported_format (highResImageFormat header) \<Longrightarrow>
   gdk_pixbuf__vtf_load_frame stride header context pos =
     Some (Unsupported (Unsupported_VTF_format (highResImageFormat header)) cannot_read_error)"
  by (simp add: gdk_pixbuf__vtf_load_frame_def supported_format_def cannot_read_error_def Let_def)

lemma by_fours_0: "by_fours 0 = []"
  by (simp add: by_fours_def)

lemma decode_image_no_pixbuf:
  assumes "w = 0 \<or> h = 0" "h = 0 \<longrightarrow> rows = []" "w = 0 \<longrightarrow> cols = []"
  shows "decode_image (gdk_pixbuf_new alpha w h stride) rows cols body pos = Some No_frame"
  using assms by (auto simp: decode_image_def gdk_pixbuf_new_def)

lemma decode_image_pixbuf:
  assumes "w \<noteq> 0" "h \<noteq> 0"
  shows "decode_image (gdk_pixbuf_new alpha w h stride) rows cols body pos = None
    \<or> (\<exists>pixbuf. decode_image (gdk_pixbuf_new alpha w h stride) rows cols body pos
          = Some (Frame pixbuf))"
  using assms
  by (cases "for_loop rows (\<lambda>i. for_loop cols (\<lambda>j. body i j)) (Map.empty, pos)")
    (auto simp: decode_image_def gdk_pixbuf_new_def)

text \<open>
  A supported format with width or height 0: no pixel buffer, no loop body, \<open>NULL\<close>
  returned with no error set. With both positive the frame is returned (or the run
  leaves the block).
\<close>

lemma load_frame_no_pixbuf:
  assumes "supported_format (highResImageFormat header)"
    and "width header = 0 \<or> height header = 0"
  shows "gdk_pixbuf__vtf_load_frame stride header context pos = Some No_frame"
proof -
  have z: "unat (width header) = 0 \<or> unat (height header) = 0"
    using assms(2) by auto
  have d: "decode_image (gdk_pixbuf_new alpha (unat (width header)) (unat (height header)) stride)
      [0..<unat (height header)] [0..<unat (width header)] body pos = Some No_frame"
    "decode_image (gdk_pixbuf_new alpha (unat (width header)) (unat (height header)) stride)
      (by_fours (unat (height header))) (by_fours (unat (width header))) body pos = Some No_frame"
    for alpha body
    using z by (auto intro!: decode_image_no_pixbuf simp: by_fours_0)
  from assms(1) show ?thesis
    unfolding gdk_pixbuf__vtf_load_frame_def Let_def d supported_format_def
    by auto
qed

lemma load_frame_pixbuf:
  assumes "supported_format (highResImageFormat header)"
    and "width header \<noteq> 0" "height header \<noteq> 0"
  shows "gdk_pixbuf__vtf_load_frame stride header context pos = None
    \<or> (\<exists>pixbuf. gdk_pixbuf__vtf_load_frame stride header context pos = Some (Frame pixbuf))"
proof -
  have nz: "unat (width header) \<noteq> 0" "unat (height header) \<noteq> 0"
    using assms(2,3) by (simp_all add: unat_eq_0)
  note d = decode_image_pixbuf [OF nz]
  from assms(1) show ?thesis
    unfolding gdk_pixbuf__vtf_load_frame_def Let_def supported_format_def
    using d by (auto simp: image_format_defs)
qed

lemma frame_loop_unsupported:
  "\<not> supported_format (highResImageFormat header) \<Longrightarrow>
   frame_loop stride header context base (i # is) res =
     Some (res\<lparr>error := Some cannot_read_error,
               stdout := stdout res @ [Unsupported_VTF_format (highResImageFormat header)],
               animation := None, calls := calls res @ [Load_frame i]\<rparr>)"
  by (simp add: load_frame_unsupported)

lemma frame_loop_no_pixbuf:
  assumes "supported_format (highResImageFormat header)"
    and "width header = 0 \<or> height header = 0"
  shows "frame_loop stride header context base (i # is) res =
     Some (res\<lparr>animation := None, calls := calls res @ [Load_frame i]\<rparr>)"
  by (simp add: load_frame_no_pixbuf [OF assms])

lemma frame_loop_supported:
  assumes "supported_format (highResImageFormat header)"
    and "width header \<noteq> 0" "height header \<noteq> 0"
    and "frame_loop stride header context base is res = Some res'"
  shows "retval res' = retval res \<and> error res' = error res \<and> stdout res' = stdout res
    \<and> calls res' = calls res @ frame_calls is
    \<and> (\<exists>pbs. length pbs = length is
          \<and> animation res' = map_option (\<lambda>fs. fs @ pbs) (animation res)
          \<and> (\<forall>k<length is. gdk_pixbuf__vtf_load_frame stride header context
                (sint (base + vtf_offset header (of_nat (is ! k)) 0 0 0))
                = Some (Frame (pbs ! k))))"
  using assms(4)
proof (induction "is" arbitrary: res)
  case Nil
  then show ?case by (simp add: frame_calls_def option.map_ident)
next
  case (Cons i "is")
  let ?r = "gdk_pixbuf__vtf_load_frame stride header context
                (sint (base + vtf_offset header (of_nat i) 0 0 0))"
  from Cons.prems load_frame_pixbuf [OF assms(1-3), of stride "context"
      "sint (base + vtf_offset header (of_nat i) 0 0 0)"]
  obtain pixbuf where pb: "?r = Some (Frame pixbuf)"
    by auto
  let ?res1 = "res\<lparr>animation := map_option (\<lambda>fs. fs @ [pixbuf]) (animation res),
                 calls := calls res @ [Load_frame i, Add_frame i]
                            @ (if i = 0 then [Prepared_func i] else [])\<rparr>"
  from Cons.prems pb have "frame_loop stride header context base is ?res1 = Some res'"
    by simp
  from Cons.IH [OF this] obtain pbs where
    f: "retval res' = retval res" "error res' = error res" "stdout res' = stdout res"
       "calls res' = calls ?res1 @ frame_calls is" and
    l: "length pbs = length is" and
    a: "animation res' = map_option (\<lambda>fs. fs @ pbs) (animation ?res1)" and
    p: "\<forall>k<length is. gdk_pixbuf__vtf_load_frame stride header context
                (sint (base + vtf_offset header (of_nat (is ! k)) 0 0 0))
                = Some (Frame (pbs ! k))"
    by auto
  have c: "calls res' = calls res @ frame_calls (i # is)"
    using f(4) by (simp add: frame_calls_def)
  have a': "animation res' = map_option (\<lambda>fs. fs @ (pixbuf # pbs)) (animation res)"
    using a by (simp add: option.map_comp comp_def)
  have p': "\<forall>k<length (i # is). gdk_pixbuf__vtf_load_frame stride header context
                (sint (base + vtf_offset header (of_nat ((i # is) ! k)) 0 0 0))
              = Some (Frame ((pixbuf # pbs) ! k))"
    using p pb by (auto simp: nth_Cons split: nat.splits)
  from f(1-3) c l a' p' show ?case
    by (intro conjI exI [of _ "pixbuf # pbs"]) simp_all
qed


lemma signature_bytes:
  assumes "sizeof_VtfHeader \<le> length bs"
  shows "take 4 bs = [bs ! 0, bs ! 1, bs ! 2, bs ! 3]"
proof -
  have "4 \<le> length bs"
    using assms by (simp add: sizeof_VtfHeader_def)
  show ?thesis
  proof (rule nth_equalityI)
    show "length (take 4 bs) = length [bs ! 0, bs ! 1, bs ! 2, bs ! 3]"
      using \<open>4 \<le> length bs\<close> by simp
    fix i
    assume "i < length (take 4 bs)"
    then have "i = 0 \<or> i = 1 \<or> i = 2 \<or> i = 3"
      by auto
    then show "take 4 bs ! i = [bs ! 0, bs ! 1, bs ! 2, bs ! 3] ! i"
      by auto
  qed
qed

lemma header_valid_iff:
  assumes "sizeof_VtfHeader \<le> length bs"
  shows "header_valid bs \<longleftrightarrow>
    \<not> (signature (read_header bs) ! 0 \<noteq> 0x56 \<or> signature (read_header bs) ! 1 \<noteq> 0x54
       \<or> signature (read_header bs) ! 2 \<noteq> 0x46 \<or> signature (read_header bs) ! 3 \<noteq> 0
       \<or> frames (read_header bs) = 0)"
proof -
  have "signature (read_header bs) = [bs ! 0, bs ! 1, bs ! 2, bs ! 3]"
    using signature_bytes [OF assms] by (simp add: read_header_def)
  then show ?thesis
    unfolding header_valid_def signature_bytes [OF assms] by auto
qed

lemma stop_load_invalid:
  assumes "sizeof_VtfHeader \<le> length (buffer context)"
    and "\<not> header_valid (buffer context)"
  shows "gdk_pixbuf__vtf_image_stop_load stride context =
    Some \<lparr>retval = False, error = Some corrupt_error, stdout = [], animation = None,
          calls = []\<rparr>"
  using assms header_valid_iff [OF assms(1)]
  by (simp add: gdk_pixbuf__vtf_image_stop_load_def Let_def corrupt_error_def)

lemma stop_load_valid:
  assumes "sizeof_VtfHeader \<le> length (buffer context)"
    and "header_valid (buffer context)"
  shows "gdk_pixbuf__vtf_image_stop_load stride context =
    frame_loop stride (decoded_header (buffer context)) context (region_base context)
      [0..<unat (frames (read_header (buffer context)))]
      \<lparr>retval = True, error = None, stdout = [], animation = Some [], calls = []\<rparr>"
  using assms header_valid_iff [OF assms(1)]
  by (simp add: gdk_pixbuf__vtf_image_stop_load_def Let_def decoded_header_def region_base_def)

lemma decoded_header_format [simp]:
  "highResImageFormat (decoded_header bs) = highResImageFormat (read_header bs)"
  by (simp add: decoded_header_def Let_def)

lemma decoded_header_size [simp]:
  "width (decoded_header bs) = width (read_header bs)"
  "height (decoded_header bs) = height (read_header bs)"
  by (simp_all add: decoded_header_def Let_def)

lemma frames_nonempty:
  "header_valid bs \<Longrightarrow>
   [0..<unat (frames (read_header bs))] = 0 # [1..<unat (frames (read_header bs))]"
proof -
  assume "header_valid bs"
  then have "frames (read_header bs) \<noteq> 0"
    by (simp add: header_valid_def)
  then have "0 < unat (frames (read_header bs))"
    by (simp add: unat_gt_0)
  then show ?thesis
    by (simp add: upt_conv_Cons)
qed

lemma stop_load_unsupported:
  assumes "sizeof_VtfHeader \<le> length (buffer context)"
    and "header_valid (buffer context)"
    and "\<not> supported_format (highResImageFormat (read_header (buffer context)))"
  shows "gdk_pixbuf__vtf_image_stop_load stride context =
    Some \<lparr>retval = True, error = Some cannot_read_error,
          stdout = [Unsupported_VTF_format (highResImageFormat (read_header (buffer context)))],
          animation = None, calls = [Load_frame 0]\<rparr>"
proof -
  have "\<not> supported_format (highResImageFormat (decoded_header (buffer context)))"
    using assms(3) by simp
  then show ?thesis
    unfolding stop_load_valid [OF assms(1,2)] frames_nonempty [OF assms(2)]
    by (simp add: frame_loop_unsupported del: frame_loop.simps)
qed

lemma stop_load_no_pixbuf:
  assumes "sizeof_VtfHeader \<le> length (buffer context)"
    and "header_valid (buffer context)"
    and "supported_format (highResImageFormat (read_header (buffer context)))"
    and "width (read_header (buffer context)) = 0 \<or> height (read_header (buffer context)) = 0"
  shows "gdk_pixbuf__vtf_image_stop_load stride context =
    Some \<lparr>retval = True, error = None, stdout = [], animation = None, calls = [Load_frame 0]\<rparr>"
proof -
  have "supported_format (highResImageFormat (decoded_header (buffer context)))"
    "width (decoded_header (buffer context)) = 0 \<or> height (decoded_header (buffer context)) = 0"
    using assms(3,4) by simp_all
  then show ?thesis
    unfolding stop_load_valid [OF assms(1,2)] frames_nonempty [OF assms(2)]
    by (simp add: frame_loop_no_pixbuf del: frame_loop.simps)
qed

lemma frame_calls_from_zero:
  "frame_calls (0 # [1..<n]) =
    [Load_frame 0, Add_frame 0, Prepared_func 0]
      @ concat (map (\<lambda>i. [Load_frame i, Add_frame i]) [1..<n])"
proof -
  have "frame_calls is = concat (map (\<lambda>i. [Load_frame i, Add_frame i]) is)"
    if "0 \<notin> set is" for "is"
    using that by (induction "is") (simp_all add: frame_calls_def)
  from this [of "[1..<n]"]
  have "frame_calls [1..<n] = concat (map (\<lambda>i. [Load_frame i, Add_frame i]) [1..<n])"
    by simp
  moreover have "frame_calls (0 # [1..<n])
      = [Load_frame 0, Add_frame 0, Prepared_func 0] @ frame_calls [1..<n]"
    by (simp add: frame_calls_def)
  ultimately show ?thesis
    by (simp only:)
qed

lemma stop_load_supported:
  assumes "sizeof_VtfHeader \<le> length (buffer context)"
    and "header_valid (buffer context)"
    and "supported_format (highResImageFormat (read_header (buffer context)))"
    and "width (read_header (buffer context)) \<noteq> 0"
      "height (read_header (buffer context)) \<noteq> 0"
    and "gdk_pixbuf__vtf_image_stop_load stride context = Some res"
  shows "retval res = True \<and> error res = None \<and> stdout res = []
    \<and> calls res = [Load_frame 0, Add_frame 0, Prepared_func 0]
        @ concat (map (\<lambda>i. [Load_frame i, Add_frame i])
            [1..<unat (frames (read_header (buffer context)))])
    \<and> (\<exists>fs. animation res = Some fs
          \<and> length fs = unat (frames (read_header (buffer context)))
          \<and> (\<forall>i<unat (frames (read_header (buffer context))).
                gdk_pixbuf__vtf_load_frame stride (decoded_header (buffer context)) context
                  (frame_pos context i) = Some (Frame (fs ! i))))"
proof -
  let ?n = "unat (frames (read_header (buffer context)))"
  let ?h = "decoded_header (buffer context)"
  have sup: "supported_format (highResImageFormat ?h)"
    using assms(3) by simp
  have dims: "width ?h \<noteq> 0" "height ?h \<noteq> 0"
    using assms(4,5) by simp_all
  have run: "frame_loop stride ?h context (region_base context) [0..<?n]
      \<lparr>retval = True, error = None, stdout = [], animation = Some [], calls = []\<rparr> = Some res"
    using assms(6) unfolding stop_load_valid [OF assms(1,2)] .
  from frame_loop_supported [OF sup dims run] obtain pbs where
    f: "retval res = True" "error res = None" "stdout res = []"
       "calls res = frame_calls [0..<?n]" and
    l: "length pbs = ?n" and a: "animation res = Some pbs" and
    p: "\<forall>k<?n. gdk_pixbuf__vtf_load_frame stride ?h context
          (sint (region_base context + vtf_offset ?h (of_nat ([0..<?n] ! k)) 0 0 0))
          = Some (Frame (pbs ! k))"
    by auto
  have c: "calls res = [Load_frame 0, Add_frame 0, Prepared_func 0]
        @ concat (map (\<lambda>i. [Load_frame i, Add_frame i]) [1..<?n])"
    using f(4) unfolding frames_nonempty [OF assms(2)] frame_calls_from_zero .
  have p': "\<forall>i<?n. gdk_pixbuf__vtf_load_frame stride ?h context (frame_pos context i)
      = Some (Frame (pbs ! i))"
    using p by (simp add: frame_pos_def)
  from f(1-3) c l a p' show ?thesis
    by (intro conjI exI [of _ pbs]) simp_all
qed


lemma stop_load_valid_result:
  assumes "sizeof_VtfHeader \<le> length (buffer context)"
    and "header_valid (buffer context)"
    and "gdk_pixbuf__vtf_image_stop_load stride context = Some res"
  shows "retval res = True \<and> error res \<noteq> Some corrupt_error
    \<and> take 1 (calls res) = [Load_frame 0]"
proof (cases "supported_format (highResImageFormat (read_header (buffer context)))")
  case sup: True
  show ?thesis
  proof (cases "width (read_header (buffer context)) = 0
      \<or> height (read_header (buffer context)) = 0")
    case True
    from stop_load_no_pixbuf [OF assms(1,2) sup True, of stride] assms(3)
    have "retval res = True" "error res = None" "calls res = [Load_frame 0]"
      by auto
    then show ?thesis
      by simp
  next
    case False
    then have "width (read_header (buffer context)) \<noteq> 0"
      "height (read_header (buffer context)) \<noteq> 0"
      by simp_all
    from stop_load_supported [OF assms(1,2) sup this assms(3)]
    have "retval res = True" "error res = None"
      "calls res = [Load_frame 0, Add_frame 0, Prepared_func 0]
        @ concat (map (\<lambda>i. [Load_frame i, Add_frame i])
            [1..<unat (frames (read_header (buffer context)))])"
      by blast+
    then show ?thesis
      by simp
  qed
next
  case False
  from stop_load_unsupported [OF assms(1,2) False, of stride] assms(3)
  have "retval res = True" "error res = Some cannot_read_error" "calls res = [Load_frame 0]"
    by auto
  moreover have "cannot_read_error \<noteq> corrupt_error"
    by (simp add: cannot_read_error_def corrupt_error_def)
  ultimately show ?thesis
    by simp
qed

text \<open>
  C6: a buffer whose first four bytes are not \<open>V\<close>, \<open>T\<close>, \<open>F\<close>, 0, or whose frames field is
  zero, makes the decode fail with the corrupt-file error, with no animation and no call
  in the frame loop; and on any other buffer the decode enters the frame loop (a returned
  result has the value \<open>TRUE\<close> and starts with the decoding of frame 0). The buffer is
  the allocated block, which holds a whole header (the loader allocates 1000000 bytes).
\<close>

theorem stop_load_header_validation:
  assumes "sizeof_VtfHeader \<le> length (buffer context)"
  shows "(take 4 (buffer context) \<noteq> [0x56, 0x54, 0x46, 0]
            \<or> frames (read_header (buffer context)) = 0 \<longrightarrow>
          gdk_pixbuf__vtf_image_stop_load stride context =
            Some \<lparr>retval = False, error = Some corrupt_error, stdout = [], animation = None,
                  calls = []\<rparr>)
       \<and> (take 4 (buffer context) = [0x56, 0x54, 0x46, 0]
            \<and> frames (read_header (buffer context)) \<noteq> 0 \<longrightarrow>
          (\<forall>res. gdk_pixbuf__vtf_image_stop_load stride context = Some res \<longrightarrow>
             retval res = True \<and> error res \<noteq> Some corrupt_error
             \<and> take 1 (calls res) = [Load_frame 0]))"
proof (rule conjI; intro impI allI)
  assume "take 4 (buffer context) \<noteq> [0x56, 0x54, 0x46, 0]
            \<or> frames (read_header (buffer context)) = 0"
  then have "\<not> header_valid (buffer context)"
    by (auto simp: header_valid_def)
  then show "gdk_pixbuf__vtf_image_stop_load stride context =
            Some \<lparr>retval = False, error = Some corrupt_error, stdout = [], animation = None,
                  calls = []\<rparr>"
    by (rule stop_load_invalid [OF assms])
next
  fix res
  assume "take 4 (buffer context) = [0x56, 0x54, 0x46, 0]
            \<and> frames (read_header (buffer context)) \<noteq> 0"
    and res: "gdk_pixbuf__vtf_image_stop_load stride context = Some res"
  then have valid: "header_valid (buffer context)"
    by (simp add: header_valid_def)
  show "retval res = True \<and> error res \<noteq> Some corrupt_error
             \<and> take 1 (calls res) = [Load_frame 0]"
    by (rule stop_load_valid_result [OF assms valid res])
qed

theorem stop_load_header_validation_witness:
  "gdk_pixbuf__vtf_image_stop_load 4 zero_frames_context =
     Some \<lparr>retval = False, error = Some corrupt_error, stdout = [], animation = None,
           calls = []\<rparr>
   \<and> gdk_pixbuf__vtf_image_stop_load 4 bad_signature_context =
     Some \<lparr>retval = False, error = Some corrupt_error, stdout = [], animation = None,
           calls = []\<rparr>
   \<and> (\<exists>res. gdk_pixbuf__vtf_image_stop_load 4 format99_context = Some res
          \<and> retval res = True \<and> error res \<noteq> Some corrupt_error
          \<and> take 1 (calls res) = [Load_frame 0])"
proof -
  have z: "sizeof_VtfHeader \<le> length (buffer zero_frames_context)"
    "frames (read_header (buffer zero_frames_context)) = 0"
    by code_simp+
  have b: "sizeof_VtfHeader \<le> length (buffer bad_signature_context)"
    "take 4 (buffer bad_signature_context) \<noteq> [0x56, 0x54, 0x46, 0]"
    by code_simp+
  have p: "sizeof_VtfHeader \<le> length (buffer format99_context)"
    "take 4 (buffer format99_context) = [0x56, 0x54, 0x46, 0]"
    "frames (read_header (buffer format99_context)) \<noteq> 0"
    "header_valid (buffer format99_context)"
    "\<not> supported_format (highResImageFormat (read_header (buffer format99_context)))"
    by code_simp+
  from stop_load_unsupported [OF p(1,4,5), of 4]
  obtain res where res: "gdk_pixbuf__vtf_image_stop_load 4 format99_context = Some res"
    by blast
  have 1: "gdk_pixbuf__vtf_image_stop_load 4 zero_frames_context =
     Some \<lparr>retval = False, error = Some corrupt_error, stdout = [], animation = None,
           calls = []\<rparr>"
    by (rule stop_load_header_validation [OF z(1), THEN conjunct1, THEN mp])
      (rule disjI2, rule z(2))
  have 2: "gdk_pixbuf__vtf_image_stop_load 4 bad_signature_context =
     Some \<lparr>retval = False, error = Some corrupt_error, stdout = [], animation = None,
           calls = []\<rparr>"
    by (rule stop_load_header_validation [OF b(1), THEN conjunct1, THEN mp])
      (rule disjI1, rule b(2))
  have 3: "retval res = True \<and> error res \<noteq> Some corrupt_error
          \<and> take 1 (calls res) = [Load_frame 0]"
    by (rule stop_load_header_validation
          [OF p(1), THEN conjunct2, THEN mp, THEN spec, THEN mp, OF conjI [OF p(2,3)] res])
  from res 3 have "\<exists>res. gdk_pixbuf__vtf_image_stop_load 4 format99_context = Some res
          \<and> retval res = True \<and> error res \<noteq> Some corrupt_error
          \<and> take 1 (calls res) = [Load_frame 0]"
    by (intro exI [of _ res] conjI) simp_all
  with 1 2 show ?thesis
    by (intro conjI)
qed

text \<open>
  C7, as stated: the error of an unsupported format includes the offending format value
  and is of a kind other than CorruptContainer. The formats 99 and 98 give the same
  error, whose code is the corrupt-image code of the header validation; the format value
  goes to standard output only.
\<close>

theorem unsupported_format_error_counterexample:
  "map_option error (gdk_pixbuf__vtf_image_stop_load 4 format99_context)
     = Some (Some \<lparr>code = GDK_PIXBUF_ERROR_CORRUPT_IMAGE, message = ''Can't read this yet.''\<rparr>)
   \<and> map_option error (gdk_pixbuf__vtf_image_stop_load 4 format98_context)
     = map_option error (gdk_pixbuf__vtf_image_stop_load 4 format99_context)
   \<and> map_option stdout (gdk_pixbuf__vtf_image_stop_load 4 format99_context)
     = Some [Unsupported_VTF_format 99]
   \<and> code corrupt_error = GDK_PIXBUF_ERROR_CORRUPT_IMAGE"
proof -
  have h99: "sizeof_VtfHeader \<le> length (buffer format99_context)"
    "header_valid (buffer format99_context)"
    "\<not> supported_format (highResImageFormat (read_header (buffer format99_context)))"
    by code_simp+
  have h98: "sizeof_VtfHeader \<le> length (buffer format98_context)"
    "header_valid (buffer format98_context)"
    "\<not> supported_format (highResImageFormat (read_header (buffer format98_context)))"
    by code_simp+
  have f: "highResImageFormat (read_header (buffer format99_context)) = 99"
    by code_simp
  show ?thesis
    unfolding stop_load_unsupported [OF h99] stop_load_unsupported [OF h98] f
    by (simp add: cannot_read_error_def corrupt_error_def)
qed

text \<open>
  C7, amended: for every valid header whose format is not one of the twelve supported
  values, the decode ends at frame 0 with the error of code
  \<open>GDK_PIXBUF_ERROR_CORRUPT_IMAGE\<close> and the fixed message \<open>Can't read this yet.\<close>, which
  differs from the corrupt-file error in its message only; the format value is printed
  to standard output, and no animation and no frame is produced.
\<close>

theorem stop_load_unsupported_format:
  assumes "sizeof_VtfHeader \<le> length (buffer context)"
    and "header_valid (buffer context)"
    and "\<not> supported_format (highResImageFormat (read_header (buffer context)))"
  shows "gdk_pixbuf__vtf_image_stop_load stride context =
      Some \<lparr>retval = True, error = Some cannot_read_error,
            stdout = [Unsupported_VTF_format (highResImageFormat (read_header (buffer context)))],
            animation = None, calls = [Load_frame 0]\<rparr>
    \<and> code cannot_read_error = code corrupt_error
    \<and> message cannot_read_error \<noteq> message corrupt_error"
proof -
  have "message cannot_read_error \<noteq> message corrupt_error"
    by (simp add: cannot_read_error_def corrupt_error_def)
  moreover have "code cannot_read_error = code corrupt_error"
    by (simp add: cannot_read_error_def corrupt_error_def)
  ultimately show ?thesis
    using stop_load_unsupported [OF assms] by blast
qed

theorem stop_load_unsupported_format_witness:
  "gdk_pixbuf__vtf_image_stop_load 4 format99_context =
      Some \<lparr>retval = True, error = Some cannot_read_error,
            stdout = [Unsupported_VTF_format 99], animation = None, calls = [Load_frame 0]\<rparr>"
proof -
  have h: "sizeof_VtfHeader \<le> length (buffer format99_context)"
    "header_valid (buffer format99_context)"
    "\<not> supported_format (highResImageFormat (read_header (buffer format99_context)))"
    by code_simp+
  have f: "highResImageFormat (read_header (buffer format99_context)) = 99"
    by code_simp
  from stop_load_unsupported_format [OF h, of 4] show ?thesis
    unfolding f by (rule conjunct1)
qed


text \<open>
  C10, as stated: a frame decode that fails after the header validation leaves the
  return value \<open>TRUE\<close> and sets the error. For a valid RGBA8888 header of width 0 the
  library creates no pixel buffer, \<open>gdk_pixbuf__vtf_load_frame\<close> returns \<open>NULL\<close> without
  setting the error, and the call returns \<open>TRUE\<close> with the error unset.
\<close>

theorem frame_failure_error_counterexample:
  "header_valid (buffer zero_width_context)
   \<and> gdk_pixbuf__vtf_load_frame 4 (decoded_header (buffer zero_width_context))
         zero_width_context (frame_pos zero_width_context 0) = Some No_frame
   \<and> gdk_pixbuf__vtf_image_stop_load 4 zero_width_context =
       Some \<lparr>retval = True, error = None, stdout = [], animation = None,
             calls = [Load_frame 0]\<rparr>"
proof -
  have h: "sizeof_VtfHeader \<le> length (buffer zero_width_context)"
    "header_valid (buffer zero_width_context)"
    "supported_format (highResImageFormat (read_header (buffer zero_width_context)))"
    "width (read_header (buffer zero_width_context)) = 0"
    by code_simp+
  have d: "supported_format (highResImageFormat (decoded_header (buffer zero_width_context)))"
    "width (decoded_header (buffer zero_width_context)) = 0
      \<or> height (decoded_header (buffer zero_width_context)) = 0"
    using h(3,4) by simp_all
  from h(2) load_frame_no_pixbuf [OF d] stop_load_no_pixbuf [OF h(1-3) disjI1 [OF h(4)]]
  show ?thesis
    by (intro conjI)
qed

text \<open>
  C10, amended: once the header validation has passed, a failing frame decode leaves
  the return value \<open>TRUE\<close>; it sets the error when the format is unsupported and leaves it
  unset when the format is supported and the width or the height is 0 (no pixel buffer
  is created); with a supported format and positive width and height no frame decode
  fails. The value \<open>FALSE\<close> is returned only when the signature or the frame count fails
  the validation.
\<close>

theorem stop_load_retval:
  assumes "sizeof_VtfHeader \<le> length (buffer context)"
  shows "(header_valid (buffer context)
           \<and> \<not> supported_format (highResImageFormat (read_header (buffer context))) \<longrightarrow>
          (\<exists>res. gdk_pixbuf__vtf_image_stop_load stride context = Some res
             \<and> retval res = True \<and> error res = Some cannot_read_error
             \<and> animation res = None))
       \<and> (header_valid (buffer context)
           \<and> supported_format (highResImageFormat (read_header (buffer context)))
           \<and> (width (read_header (buffer context)) = 0
                \<or> height (read_header (buffer context)) = 0) \<longrightarrow>
          (\<exists>res. gdk_pixbuf__vtf_image_stop_load stride context = Some res
             \<and> retval res = True \<and> error res = None \<and> animation res = None))
       \<and> (header_valid (buffer context)
           \<and> supported_format (highResImageFormat (read_header (buffer context)))
           \<and> width (read_header (buffer context)) \<noteq> 0
           \<and> height (read_header (buffer context)) \<noteq> 0 \<longrightarrow>
          (\<forall>res. gdk_pixbuf__vtf_image_stop_load stride context = Some res \<longrightarrow>
             retval res = True \<and> error res = None \<and> animation res \<noteq> None))
       \<and> (\<forall>res. gdk_pixbuf__vtf_image_stop_load stride context = Some res \<longrightarrow>
             (retval res = False \<longleftrightarrow>
                take 4 (buffer context) \<noteq> [0x56, 0x54, 0x46, 0]
                \<or> frames (read_header (buffer context)) = 0))"
proof (intro conjI; intro impI allI)
  assume "header_valid (buffer context)
           \<and> \<not> supported_format (highResImageFormat (read_header (buffer context)))"
  then show "\<exists>res. gdk_pixbuf__vtf_image_stop_load stride context = Some res
             \<and> retval res = True \<and> error res = Some cannot_read_error
             \<and> animation res = None"
    using stop_load_unsupported [OF assms, of stride] by simp
next
  assume "header_valid (buffer context)
           \<and> supported_format (highResImageFormat (read_header (buffer context)))
           \<and> (width (read_header (buffer context)) = 0
                \<or> height (read_header (buffer context)) = 0)"
  then show "\<exists>res. gdk_pixbuf__vtf_image_stop_load stride context = Some res
             \<and> retval res = True \<and> error res = None \<and> animation res = None"
    using stop_load_no_pixbuf [OF assms, of stride] by simp
next
  fix res
  assume a: "header_valid (buffer context)
           \<and> supported_format (highResImageFormat (read_header (buffer context)))
           \<and> width (read_header (buffer context)) \<noteq> 0
           \<and> height (read_header (buffer context)) \<noteq> 0"
    and res: "gdk_pixbuf__vtf_image_stop_load stride context = Some res"
  from a have v: "header_valid (buffer context)"
    and s: "supported_format (highResImageFormat (read_header (buffer context)))"
    and d: "width (read_header (buffer context)) \<noteq> 0"
      "height (read_header (buffer context)) \<noteq> 0"
    by simp_all
  from stop_load_supported [OF assms v s d res]
  show "retval res = True \<and> error res = None \<and> animation res \<noteq> None"
    by auto
next
  fix res
  assume res: "gdk_pixbuf__vtf_image_stop_load stride context = Some res"
  show "retval res = False \<longleftrightarrow>
                take 4 (buffer context) \<noteq> [0x56, 0x54, 0x46, 0]
                \<or> frames (read_header (buffer context)) = 0"
  proof (cases "header_valid (buffer context)")
    case True
    from stop_load_valid_result [OF assms True res] have "retval res = True"
      by simp
    with True show ?thesis
      by (simp add: header_valid_def)
  next
    case False
    from stop_load_invalid [OF assms False, of stride] res have "retval res = False"
      by auto
    with False show ?thesis
      by (auto simp: header_valid_def)
  qed
qed

theorem stop_load_retval_witness:
  "(\<exists>res. gdk_pixbuf__vtf_image_stop_load 4 format98_context = Some res
       \<and> retval res = True \<and> error res = Some cannot_read_error \<and> animation res = None)
   \<and> (\<exists>res. gdk_pixbuf__vtf_image_stop_load 4 zero_width_context = Some res
       \<and> retval res = True \<and> error res = None \<and> animation res = None)
   \<and> (\<exists>res. gdk_pixbuf__vtf_image_stop_load 4 zero_frames_context = Some res
       \<and> retval res = False)"
proof -
  have h: "sizeof_VtfHeader \<le> length (buffer format98_context)"
    "header_valid (buffer format98_context)"
    "\<not> supported_format (highResImageFormat (read_header (buffer format98_context)))"
    by code_simp+
  have w: "sizeof_VtfHeader \<le> length (buffer zero_width_context)"
    "header_valid (buffer zero_width_context)"
    "supported_format (highResImageFormat (read_header (buffer zero_width_context)))"
    "width (read_header (buffer zero_width_context)) = 0"
    by code_simp+
  have z: "sizeof_VtfHeader \<le> length (buffer zero_frames_context)"
    "frames (read_header (buffer zero_frames_context)) = 0"
    "\<not> header_valid (buffer zero_frames_context)"
    by code_simp+
  from stop_load_invalid [OF z(1,3), of 4]
  obtain res where res: "gdk_pixbuf__vtf_image_stop_load 4 zero_frames_context = Some res"
    by blast
  have 1: "\<exists>res. gdk_pixbuf__vtf_image_stop_load 4 format98_context = Some res
       \<and> retval res = True \<and> error res = Some cannot_read_error \<and> animation res = None"
    by (rule stop_load_retval [OF h(1), of 4, THEN conjunct1, THEN mp, OF conjI [OF h(2,3)]])
  have 2: "\<exists>res. gdk_pixbuf__vtf_image_stop_load 4 zero_width_context = Some res
       \<and> retval res = True \<and> error res = None \<and> animation res = None"
    by (rule stop_load_retval [OF w(1), of 4, THEN conjunct2, THEN conjunct1, THEN mp,
          OF conjI [OF w(2) conjI [OF w(3) disjI1 [OF w(4)]]]])
  have "retval res = False \<longleftrightarrow>
      take 4 (buffer zero_frames_context) \<noteq> [0x56, 0x54, 0x46, 0]
      \<or> frames (read_header (buffer zero_frames_context)) = 0"
    by (rule stop_load_retval [OF z(1), of 4, THEN conjunct2, THEN conjunct2, THEN conjunct2,
          THEN spec, THEN mp, OF res])
  with z(2) have "retval res = False"
    by simp
  with res have 3: "\<exists>res. gdk_pixbuf__vtf_image_stop_load 4 zero_frames_context = Some res
       \<and> retval res = False"
    by blast
  from 1 2 3 show ?thesis
    by (intro conjI)
qed

lemma frame_loop_total:
  assumes "\<forall>k<length is. \<exists>pixbuf. gdk_pixbuf__vtf_load_frame stride header context
      (sint (base + vtf_offset header (of_nat (is ! k)) 0 0 0)) = Some (Frame pixbuf)"
  shows "\<exists>res'. frame_loop stride header context base is res = Some res'"
  using assms
proof (induction "is" arbitrary: res)
  case Nil
  show ?case by simp
next
  case (Cons i "is")
  from Cons.prems [rule_format, of 0] obtain pixbuf where
    pb: "gdk_pixbuf__vtf_load_frame stride header context
      (sint (base + vtf_offset header (of_nat i) 0 0 0)) = Some (Frame pixbuf)"
    by auto
  have "\<forall>k<length is. \<exists>pixbuf. gdk_pixbuf__vtf_load_frame stride header context
      (sint (base + vtf_offset header (of_nat (is ! k)) 0 0 0)) = Some (Frame pixbuf)"
    using Cons.prems by (auto dest: spec [of _ "Suc k" for k])
  from Cons.IH [OF this] show ?case
    by (simp add: pb)
qed

lemma load_frame_Frame:
  assumes "gdk_pixbuf__vtf_load_frame stride header context pos = Some (Frame pixbuf)"
  shows "supported_format (highResImageFormat header)
    \<and> width header \<noteq> 0 \<and> height header \<noteq> 0"
  using assms load_frame_unsupported [of header stride "context" pos]
    load_frame_no_pixbuf [of header stride "context" pos]
  by auto

lemma load_frame_NULL:
  assumes "gdk_pixbuf__vtf_load_frame stride header context pos = Some No_frame
    \<or> (\<exists>line err. gdk_pixbuf__vtf_load_frame stride header context pos
          = Some (Unsupported line err))"
  shows "\<not> supported_format (highResImageFormat header)
    \<or> width header = 0 \<or> height header = 0"
proof (rule ccontr)
  assume "\<not> (\<not> supported_format (highResImageFormat header)
    \<or> width header = 0 \<or> height header = 0)"
  then have "supported_format (highResImageFormat header)"
    "width header \<noteq> 0" "height header \<noteq> 0"
    by simp_all
  from load_frame_pixbuf [OF this, of stride "context" pos] assms show False
    by auto
qed

text \<open>
  C9: when every one of the \<open>n\<close> frames decodes, the call returns with no error, having
  made exactly the calls load 0, add 0, prepared, load 1, add 1, ..., load \<open>n - 1\<close>, add
  \<open>n - 1\<close>: the one call of \<open>prepared_func\<close> comes with frame 0, after it is decoded and
  added and before any later frame is decoded; the animation holds the \<open>n\<close> decoded
  frames in index order. When the decode of a frame fails (\<open>NULL\<close> is returned, with or
  without an error), the call returns with no animation, having added no frame and not
  called \<open>prepared_func\<close>: its only call is the decode of frame 0.
\<close>

theorem stop_load_frame_sequence:
  assumes "sizeof_VtfHeader \<le> length (buffer context)"
    and "header_valid (buffer context)"
  shows "((\<forall>i<unat (frames (read_header (buffer context))).
            \<exists>pixbuf. gdk_pixbuf__vtf_load_frame stride (decoded_header (buffer context))
                       context (frame_pos context i) = Some (Frame pixbuf)) \<longrightarrow>
          (\<exists>res fs. gdk_pixbuf__vtf_image_stop_load stride context = Some res
             \<and> retval res = True \<and> error res = None
             \<and> calls res = [Load_frame 0, Add_frame 0, Prepared_func 0]
                 @ concat (map (\<lambda>i. [Load_frame i, Add_frame i])
                     [1..<unat (frames (read_header (buffer context)))])
             \<and> animation res = Some fs
             \<and> length fs = unat (frames (read_header (buffer context)))
             \<and> (\<forall>i<unat (frames (read_header (buffer context))).
                   gdk_pixbuf__vtf_load_frame stride (decoded_header (buffer context))
                     context (frame_pos context i) = Some (Frame (fs ! i)))))
       \<and> ((\<exists>i<unat (frames (read_header (buffer context))).
            gdk_pixbuf__vtf_load_frame stride (decoded_header (buffer context))
              context (frame_pos context i) = Some No_frame
            \<or> (\<exists>line err. gdk_pixbuf__vtf_load_frame stride (decoded_header (buffer context))
                  context (frame_pos context i) = Some (Unsupported line err))) \<longrightarrow>
          (\<exists>res. gdk_pixbuf__vtf_image_stop_load stride context = Some res
             \<and> animation res = None \<and> calls res = [Load_frame 0]))"
proof (rule conjI; rule impI)
  let ?n = "unat (frames (read_header (buffer context)))"
  let ?h = "decoded_header (buffer context)"
  assume all: "\<forall>i<?n. \<exists>pixbuf. gdk_pixbuf__vtf_load_frame stride ?h context
      (frame_pos context i) = Some (Frame pixbuf)"
  have n: "0 < ?n"
    using assms(2) by (simp add: header_valid_def unat_gt_0)
  with all obtain pixbuf where "gdk_pixbuf__vtf_load_frame stride ?h context
      (frame_pos context 0) = Some (Frame pixbuf)"
    by blast
  from load_frame_Frame [OF this]
  have sup: "supported_format (highResImageFormat (read_header (buffer context)))"
    and dims: "width (read_header (buffer context)) \<noteq> 0"
      "height (read_header (buffer context)) \<noteq> 0"
    by simp_all
  have "\<forall>k<length [0..<?n]. \<exists>pixbuf. gdk_pixbuf__vtf_load_frame stride ?h context
      (sint (region_base context + vtf_offset ?h (of_nat ([0..<?n] ! k)) 0 0 0))
      = Some (Frame pixbuf)"
    using all by (simp add: frame_pos_def)
  from frame_loop_total [OF this] obtain res where
    "frame_loop stride ?h context (region_base context) [0..<?n]
      \<lparr>retval = True, error = None, stdout = [], animation = Some [], calls = []\<rparr> = Some res"
    by blast
  then have res: "gdk_pixbuf__vtf_image_stop_load stride context = Some res"
    unfolding stop_load_valid [OF assms] .
  from stop_load_supported [OF assms sup dims res] res
  show "\<exists>res fs. gdk_pixbuf__vtf_image_stop_load stride context = Some res
             \<and> retval res = True \<and> error res = None
             \<and> calls res = [Load_frame 0, Add_frame 0, Prepared_func 0]
                 @ concat (map (\<lambda>i. [Load_frame i, Add_frame i]) [1..<?n])
             \<and> animation res = Some fs
             \<and> length fs = ?n
             \<and> (\<forall>i<?n. gdk_pixbuf__vtf_load_frame stride ?h
                     context (frame_pos context i) = Some (Frame (fs ! i)))"
    by blast
next
  let ?n = "unat (frames (read_header (buffer context)))"
  let ?h = "decoded_header (buffer context)"
  assume "\<exists>i<?n. gdk_pixbuf__vtf_load_frame stride ?h context (frame_pos context i)
        = Some No_frame
      \<or> (\<exists>line err. gdk_pixbuf__vtf_load_frame stride ?h context (frame_pos context i)
            = Some (Unsupported line err))"
  then obtain i where "gdk_pixbuf__vtf_load_frame stride ?h context (frame_pos context i)
        = Some No_frame
      \<or> (\<exists>line err. gdk_pixbuf__vtf_load_frame stride ?h context (frame_pos context i)
            = Some (Unsupported line err))"
    by blast
  from load_frame_NULL [OF this]
  have cases: "\<not> supported_format (highResImageFormat (read_header (buffer context)))
      \<or> width (read_header (buffer context)) = 0 \<or> height (read_header (buffer context)) = 0"
    by simp
  show "\<exists>res. gdk_pixbuf__vtf_image_stop_load stride context = Some res
             \<and> animation res = None \<and> calls res = [Load_frame 0]"
  proof (cases "supported_format (highResImageFormat (read_header (buffer context)))")
    case True
    with cases have "width (read_header (buffer context)) = 0
        \<or> height (read_header (buffer context)) = 0"
      by simp
    from stop_load_no_pixbuf [OF assms True this, of stride] show ?thesis
      by simp
  next
    case False
    from stop_load_unsupported [OF assms False, of stride] show ?thesis
      by simp
  qed
qed

lemma three_frames_header:
  "read_header (buffer three_frames_context) =
    \<lparr>signature = [0x56, 0x54, 0x46, 0], version0 = 7, version1 = 2, headerSize = 80,
     width = 1, height = 1, flags = 0, frames = 3, firstFrame = 0,
     highResImageFormat = 5, mipmapCount = 1, lowResImageFormat = 13,
     lowResImageWidth = 0, lowResImageHeight = 0, depth = 1\<rparr>"
  by (simp add: three_frames_context_def example_context_def example_file_def read_header_def
      le16_def le32_def nth_append)

lemma three_frames_load:
  assumes "pos = 68 \<or> pos = 69 \<or> pos = 70"
  shows "\<exists>pixbuf. gdk_pixbuf__vtf_load_frame 3 (read_header (buffer three_frames_context))
      three_frames_context pos = Some (Frame pixbuf)"
  using assms unfolding three_frames_header
  by (auto simp add: gdk_pixbuf__vtf_load_frame_def decode_image_def gdk_pixbuf_new_def
      i8_pixel_def next_byte_def image_format_defs Let_def three_frames_context_def
      example_context_def example_file_def)

lemma three_frames_pos:
  "decoded_header (buffer three_frames_context) = read_header (buffer three_frames_context)"
  "frame_pos three_frames_context 0 = 68"
  "frame_pos three_frames_context 1 = 69"
  "frame_pos three_frames_context 2 = 70"
proof -
  show dec: "decoded_header (buffer three_frames_context) =
      read_header (buffer three_frames_context)"
    unfolding decoded_header_def three_frames_header by (simp add: Let_def)
  have base: "region_base three_frames_context = 68"
    unfolding region_base_def dec three_frames_header
    by (simp add: vtf_offset_def vtf_offset_loop.simps vtf_mip_size_def shr_def unat_minus_1
        image_format_defs three_frames_context_def example_context_def example_file_def)
  have off: "vtf_offset (read_header (buffer three_frames_context)) i 0 0 0 = i" for i
    unfolding three_frames_header
    by (simp add: vtf_offset_def vtf_offset_loop.simps vtf_mip_size_def shr_def unat_minus_1
        image_format_defs)
  show "frame_pos three_frames_context 0 = 68"
    "frame_pos three_frames_context 1 = 69"
    "frame_pos three_frames_context 2 = 70"
    unfolding frame_pos_def dec base off by simp_all
qed

theorem stop_load_frame_sequence_witness:
  "(\<exists>res. gdk_pixbuf__vtf_image_stop_load 3 three_frames_context = Some res
      \<and> retval res = True \<and> error res = None
      \<and> calls res = [Load_frame 0, Add_frame 0, Prepared_func 0, Load_frame 1, Add_frame 1,
                      Load_frame 2, Add_frame 2]
      \<and> map_option length (animation res) = Some 3)
   \<and> (\<exists>res. gdk_pixbuf__vtf_image_stop_load 4 zero_width_context = Some res
      \<and> animation res = None \<and> calls res = [Load_frame 0])"
proof -
  have size: "sizeof_VtfHeader \<le> length (buffer three_frames_context)"
    by (simp add: three_frames_context_def example_context_def example_file_def
        sizeof_VtfHeader_def)
  have valid: "header_valid (buffer three_frames_context)"
    unfolding header_valid_def three_frames_header
    by (simp add: three_frames_context_def example_context_def example_file_def)
  have n: "unat (frames (read_header (buffer three_frames_context))) = 3"
    by (simp add: three_frames_header)
  have list: "[1..<3] = [1, 2 :: nat]"
    by (simp add: upt_rec)
  have all: "\<forall>i<unat (frames (read_header (buffer three_frames_context))).
      \<exists>pixbuf. gdk_pixbuf__vtf_load_frame 3 (decoded_header (buffer three_frames_context))
        three_frames_context (frame_pos three_frames_context i) = Some (Frame pixbuf)"
    unfolding n three_frames_pos(1)
  proof (intro allI impI)
    fix i :: nat
    assume "i < 3"
    then have "i = 0 \<or> i = 1 \<or> i = 2"
      by auto
    then have "frame_pos three_frames_context i = 68
        \<or> frame_pos three_frames_context i = 69 \<or> frame_pos three_frames_context i = 70"
      using three_frames_pos(2-4) by blast
    then show "\<exists>pixbuf. gdk_pixbuf__vtf_load_frame 3
        (read_header (buffer three_frames_context))
        three_frames_context (frame_pos three_frames_context i) = Some (Frame pixbuf)"
      by (rule three_frames_load)
  qed
  from stop_load_frame_sequence [OF size valid, of 3, THEN conjunct1, THEN mp, OF all]
  obtain res fs where "gdk_pixbuf__vtf_image_stop_load 3 three_frames_context = Some res"
    "retval res = True" "error res = None"
    "calls res = [Load_frame 0, Add_frame 0, Prepared_func 0]
       @ concat (map (\<lambda>i. [Load_frame i, Add_frame i]) [1..<3])"
    "animation res = Some fs" "length fs = 3"
    unfolding n by blast
  then have 1: "\<exists>res. gdk_pixbuf__vtf_image_stop_load 3 three_frames_context = Some res
      \<and> retval res = True \<and> error res = None
      \<and> calls res = [Load_frame 0, Add_frame 0, Prepared_func 0, Load_frame 1, Add_frame 1,
                      Load_frame 2, Add_frame 2]
      \<and> map_option length (animation res) = Some 3"
    unfolding list by simp
  have w: "sizeof_VtfHeader \<le> length (buffer zero_width_context)"
    "header_valid (buffer zero_width_context)"
    "supported_format (highResImageFormat (read_header (buffer zero_width_context)))"
    "width (read_header (buffer zero_width_context)) = 0"
    "0 < unat (frames (read_header (buffer zero_width_context)))"
    by code_simp+
  have d: "supported_format (highResImageFormat (decoded_header (buffer zero_width_context)))"
    "width (decoded_header (buffer zero_width_context)) = 0
      \<or> height (decoded_header (buffer zero_width_context)) = 0"
    using w(3,4) by simp_all
  have "\<exists>i<unat (frames (read_header (buffer zero_width_context))).
      gdk_pixbuf__vtf_load_frame 4 (decoded_header (buffer zero_width_context))
        zero_width_context (frame_pos zero_width_context i) = Some No_frame
      \<or> (\<exists>line err. gdk_pixbuf__vtf_load_frame 4 (decoded_header (buffer zero_width_context))
            zero_width_context (frame_pos zero_width_context i) = Some (Unsupported line err))"
    using w(5) load_frame_no_pixbuf [OF d] by blast
  from stop_load_frame_sequence [OF w(1,2), of 4, THEN conjunct2, THEN mp, OF this] 1
  show ?thesis
    by (intro conjI)
qed

lemma truncated_header:
  "read_header (buffer truncated_context) =
    \<lparr>signature = [0x56, 0x54, 0x46, 0], version0 = 7, version1 = 2, headerSize = 80,
     width = 16, height = 16, flags = 0, frames = 1, firstFrame = 0,
     highResImageFormat = 0, mipmapCount = 1, lowResImageFormat = 13,
     lowResImageWidth = 0, lowResImageHeight = 0, depth = 1\<rparr>"
  by (simp add: truncated_context_def example_context_def example_file_def read_header_def
      le16_def le32_def nth_append)

text \<open>
  C3, as stated: the decode fails with CorruptContainer whenever the computed region
  exceeds the buffer. A file of 68 bytes whose valid header announces one RGBA8888 frame
  of 16 by 16 pixels has a region of 1024 bytes; the decoder checks nothing, takes
  \<open>68 - 1024\<close> as the start of the region and reads at index -956: the run leaves the
  allocated block instead of returning an error.
\<close>

theorem region_exceeds_buffer_counterexample:
  "header_valid (buffer truncated_context)
   \<and> unat (buffer_data_size truncated_context) = 68
   \<and> unat (vtf_offset (decoded_header (buffer truncated_context)) 0 0 0 (- 1)) = 1024
   \<and> frame_pos truncated_context 0 = - 956
   \<and> gdk_pixbuf__vtf_image_stop_load 64 truncated_context = None"
proof -
  have size: "sizeof_VtfHeader \<le> length (buffer truncated_context)"
    by (simp add: truncated_context_def example_context_def example_file_def
        sizeof_VtfHeader_def)
  have valid: "header_valid (buffer truncated_context)"
    unfolding header_valid_def truncated_header
    by (simp add: truncated_context_def example_context_def example_file_def)
  have dec: "decoded_header (buffer truncated_context) = read_header (buffer truncated_context)"
    unfolding decoded_header_def truncated_header by (simp add: Let_def)
  have data: "buffer_data_size truncated_context = 68"
    by (simp add: truncated_context_def example_context_def example_file_def)
  have full: "vtf_offset (read_header (buffer truncated_context)) 0 0 0 (- 1) = 1024"
    unfolding truncated_header
    by (simp add: vtf_offset_def vtf_offset_loop.simps vtf_mip_size_def shr_def unat_minus_1
        image_format_defs)
  have off: "vtf_offset (read_header (buffer truncated_context)) 0 0 0 0 = 0"
    unfolding truncated_header
    by (simp add: vtf_offset_def vtf_offset_loop.simps vtf_mip_size_def shr_def unat_minus_1
        image_format_defs)
  have pos: "frame_pos truncated_context 0 = - 956"
    unfolding frame_pos_def region_base_def dec data full by (simp add: off)
  have load: "gdk_pixbuf__vtf_load_frame 64 (read_header (buffer truncated_context))
      truncated_context (- 956) = None"
    unfolding truncated_header
    by (simp add: gdk_pixbuf__vtf_load_frame_def decode_image_def gdk_pixbuf_new_def
        rgba8888_pixel_def
        next_byte_def image_format_defs Let_def upt_rec)
  have n: "[0..<unat (frames (read_header (buffer truncated_context)))] = [0]"
    by (simp add: truncated_header)
  have "gdk_pixbuf__vtf_image_stop_load 64 truncated_context = None"
    unfolding stop_load_valid [OF size valid] n
    using pos load by (simp add: frame_pos_def dec)
  with valid pos show ?thesis
    by (simp add: data dec full)
qed

text \<open>
  C3, amended: the decoder makes no check of the computed region against the buffer. It
  reports the corrupt-file error for a wrong signature or a zero frame count and for
  nothing else; on every other buffer it runs the frame loop from
  \<open>base = buffer_data_size - offset(0,0,0,-1)\<close>, computed modulo \<open>2 ^ 32\<close>, whatever the
  two lengths are.
\<close>

theorem stop_load_no_bounds_check:
  assumes "sizeof_VtfHeader \<le> length (buffer context)"
  shows "(\<forall>res. gdk_pixbuf__vtf_image_stop_load stride context = Some res
              \<and> error res = Some corrupt_error \<longrightarrow>
            take 4 (buffer context) \<noteq> [0x56, 0x54, 0x46, 0]
            \<or> frames (read_header (buffer context)) = 0)
       \<and> (take 4 (buffer context) = [0x56, 0x54, 0x46, 0]
            \<and> frames (read_header (buffer context)) \<noteq> 0 \<longrightarrow>
          gdk_pixbuf__vtf_image_stop_load stride context =
            frame_loop stride (decoded_header (buffer context)) context
              (buffer_data_size context
                 - vtf_offset (decoded_header (buffer context)) 0 0 0 (- 1))
              [0..<unat (frames (read_header (buffer context)))]
              \<lparr>retval = True, error = None, stdout = [], animation = Some [], calls = []\<rparr>)"
proof (rule conjI; intro impI allI)
  fix res
  assume a: "gdk_pixbuf__vtf_image_stop_load stride context = Some res
              \<and> error res = Some corrupt_error"
  have "\<not> header_valid (buffer context)"
  proof
    assume valid: "header_valid (buffer context)"
    from a stop_load_valid_result [OF assms valid, of stride res] show False
      by simp
  qed
  then show "take 4 (buffer context) \<noteq> [0x56, 0x54, 0x46, 0]
            \<or> frames (read_header (buffer context)) = 0"
    by (auto simp: header_valid_def)
next
  assume "take 4 (buffer context) = [0x56, 0x54, 0x46, 0]
            \<and> frames (read_header (buffer context)) \<noteq> 0"
  then have "header_valid (buffer context)"
    by (simp add: header_valid_def)
  from stop_load_valid [OF assms this]
  show "gdk_pixbuf__vtf_image_stop_load stride context =
            frame_loop stride (decoded_header (buffer context)) context
              (buffer_data_size context
                 - vtf_offset (decoded_header (buffer context)) 0 0 0 (- 1))
              [0..<unat (frames (read_header (buffer context)))]
              \<lparr>retval = True, error = None, stdout = [], animation = Some [], calls = []\<rparr>"
    by (simp only: region_base_def)
qed

theorem stop_load_no_bounds_check_witness:
  "frames (read_header (buffer zero_frames_context)) = 0
   \<and> gdk_pixbuf__vtf_image_stop_load 64 truncated_context =
       frame_loop 64 (decoded_header (buffer truncated_context)) truncated_context
         (buffer_data_size truncated_context
            - vtf_offset (decoded_header (buffer truncated_context)) 0 0 0 (- 1))
         [0..<unat (frames (read_header (buffer truncated_context)))]
         \<lparr>retval = True, error = None, stdout = [], animation = Some [], calls = []\<rparr>"
proof -
  have z: "sizeof_VtfHeader \<le> length (buffer zero_frames_context)"
    "\<not> header_valid (buffer zero_frames_context)"
    "take 4 (buffer zero_frames_context) = [0x56, 0x54, 0x46, 0]"
    by code_simp+
  have t: "sizeof_VtfHeader \<le> length (buffer truncated_context)"
    "take 4 (buffer truncated_context) = [0x56, 0x54, 0x46, 0]"
    "frames (read_header (buffer truncated_context)) \<noteq> 0"
    by code_simp+
  have res: "gdk_pixbuf__vtf_image_stop_load 64 zero_frames_context =
      Some \<lparr>retval = False, error = Some corrupt_error, stdout = [], animation = None,
            calls = []\<rparr>
      \<and> error \<lparr>retval = False, error = Some corrupt_error, stdout = [], animation = None,
            calls = []\<rparr> = Some corrupt_error"
    using stop_load_invalid [OF z(1,2), of 64] by simp
  from stop_load_no_bounds_check [OF z(1), of 64, THEN conjunct1, THEN spec, THEN mp, OF res] z(3)
  have 1: "frames (read_header (buffer zero_frames_context)) = 0"
    by simp
  from stop_load_no_bounds_check [OF t(1), of 64, THEN conjunct2, THEN mp, OF conjI [OF t(2,3)]]
  show ?thesis
    using 1 by (intro conjI)
qed





section \<open>Loops over cells\<close>

lemma for_loop_append:
  "for_loop (xs @ ys) body s =
    (case for_loop xs body s of None \<Rightarrow> None | Some s' \<Rightarrow> for_loop ys body s')"
  by (induction xs arbitrary: s) (auto split: option.splits)

lemma for_loop_nested:
  "for_loop rows (\<lambda>i. for_loop cols (\<lambda>j. body i j)) s =
     for_loop (List.product rows cols) (\<lambda>(i, j). body i j) s"
proof (induction rows arbitrary: s)
  case Nil
  show ?case by simp
next
  case (Cons i rows)
  have inner: "for_loop (map (Pair i) cols) (\<lambda>(i, j). body i j) s = for_loop cols (body i) s" for s
    by (induction cols arbitrary: s) (auto split: option.splits)
  show ?case
    by (simp add: for_loop_append inner Cons.IH split: option.splits)
qed

lemma for_loop_pure:
  "for_loop cs (\<lambda>c s. Some (f c s)) s = Some (fold f cs s)"
  by (induction cs arbitrary: s) auto

lemma fold_upt_Suc:
  "fold W [0..<Suc n] px = fold (\<lambda>k. W (Suc k)) [0..<n] (W 0 px)"
proof -
  have "[0..<Suc n] = 0 # map Suc [0..<n]"
    by (simp add: upt_conv_Cons map_Suc_upt del: upt_Suc)
  then show ?thesis
    by (simp add: fold_map comp_def del: upt_Suc)
qed

text \<open>
  A loop whose \<open>k\<close>-th cell, met with the second state component \<open>T k\<close>, succeeds,
  updates the pixels by \<open>W k\<close> and leaves \<open>T (k + 1)\<close>.
\<close>

lemma for_loop_cells:
  assumes "\<And>k px. k < length cs \<Longrightarrow> step (cs ! k) (px, T k) = Some (W k px, T (Suc k))"
  shows "for_loop cs step (px, T 0) = Some (fold W [0..<length cs] px, T (length cs))"
  using assms
proof (induction cs arbitrary: px T W)
  case Nil
  show ?case by simp
next
  case (Cons c cs)
  have first: "step c (px, T 0) = Some (W 0 px, T (Suc 0))"
    using Cons.prems [of 0 px] by simp
  have rest: "step (cs ! k) (px', T (Suc k)) = Some (W (Suc k) px', T (Suc (Suc k)))"
    if "k < length cs" for k px'
    using Cons.prems [of "Suc k" px'] that by simp
  have "for_loop cs step (W 0 px, T (Suc 0)) =
      Some (fold (\<lambda>k. W (Suc k)) [0..<length cs] (W 0 px), T (Suc (length cs)))"
    using Cons.IH [of "\<lambda>k. T (Suc k)" "\<lambda>k. W (Suc k)" "W 0 px"] rest by simp
  then show ?case
    using first by (simp add: fold_upt_Suc del: upt_Suc)
qed

text \<open>The last writer wins: an index keeps what the last cell that owns it wrote.\<close>

lemma fold_untouched:
  assumes "\<And>k px. k < n \<Longrightarrow> W k px x = px x"
  shows "fold W [0..<n] px x = px x"
  using assms by (induction n) simp_all

lemma fold_last_writer:
  assumes frame: "\<And>k' px. k < k' \<Longrightarrow> k' < n \<Longrightarrow> W k' px x = px x"
    and val: "\<And>px. W k px x = v"
    and k: "k < n"
  shows "fold W [0..<n] px x = v"
  using frame k
proof (induction n)
  case 0
  then show ?case by simp
next
  case (Suc n)
  show ?case
  proof (cases "k = n")
    case True
    then show ?thesis using val [of "fold W [0..<n] px"] by simp
  next
    case False
    with Suc.prems have kn: "k < n" by simp
    have "W n (fold W [0..<n] px) x = fold W [0..<n] px x"
      using Suc.prems(1) [of n] kn by simp
    also have "\<dots> = v"
      using Suc.IH [OF _ kn] Suc.prems(1) by simp
    finally show ?thesis by simp
  qed
qed



lemma fold_nested:
  "fold (\<lambda>i. fold (\<lambda>j. f i j) ys) xs s = fold (\<lambda>(i, j). f i j) (List.product xs ys) s"
proof (induction xs arbitrary: s)
  case Nil
  show ?case by simp
next
  case (Cons i xs)
  have inner: "fold (\<lambda>(i, j). f i j) (map (Pair i) ys) s = fold (f i) ys s" for s
    by (induction ys arbitrary: s) auto
  show ?case
    by (simp add: inner Cons.IH)
qed

lemma fold_cells:
  assumes "\<And>k px. k < length cs \<Longrightarrow> f (cs ! k) (px, T k) = (W k px, T (Suc k))"
  shows "fold f cs (px, T 0) = (fold W [0..<length cs] px, T (length cs))"
proof -
  have "for_loop cs (\<lambda>c s. Some (f c s)) (px, T 0)
      = Some (fold W [0..<length cs] px, T (length cs))"
    by (rule for_loop_cells) (simp add: assms)
  then show ?thesis
    by (simp add: for_loop_pure)
qed

section \<open>Pixel indices\<close>

lemma store_apply: "store idx v px n = (if n = unat idx then Some v else px n)"
  by (simp add: store_def)

text \<open>
  With rows that do not overlap (\<open>4 * w \<le> stride\<close>) in a pixel array that 32-bit indices
  can address (\<open>stride * h < 2 ^ 32\<close>), the index of a byte is computed without
  wrap-around and determines its row, column and channel.
\<close>

lemma pixel_index_unat:
  assumes "y < h" "x < w" "unat c < 4" "4 * w \<le> unat stride" "unat stride * h < 2 ^ 32"
  shows "unat (stride * of_nat y + 4 * of_nat x + (c :: uint)) = unat stride * y + 4 * x + unat c"
proof -
  have "unat stride * y + 4 * x + unat c < unat stride * y + unat stride"
    using assms by linarith
  also have "\<dots> = unat stride * Suc y"
    by simp
  also have "\<dots> \<le> unat stride * h"
    using assms(1) by (intro mult_le_mono2) simp
  finally have small: "unat stride * y + 4 * x + unat c < 2 ^ 32"
    using assms(5) by linarith
  have "stride * of_nat y + 4 * of_nat x + c = of_nat (unat stride * y + 4 * x + unat c)"
    by simp
  also have "unat \<dots> = unat stride * y + 4 * x + unat c"
    using small by (simp only: unat_of_nat) simp
  finally show ?thesis .
qed

lemma pixel_index_inject:
  assumes "S * y + 4 * x + c = S * y' + 4 * x' + (c' :: nat)"
    and "x < w" "x' < w" "c < 4" "c' < 4" "4 * w \<le> S"
  shows "y = y' \<and> x = x' \<and> c = c'"
proof -
  have r: "4 * x + c < S" "4 * x' + c' < S"
    using assms by linarith+
  have "(4 * x + c + y * S) div S = (4 * x' + c' + y' * S) div S"
    using assms(1) by (simp add: ac_simps)
  then have y: "y = y'"
    using r by simp
  with assms(1) have "4 * x + c = 4 * x' + c'"
    by simp
  with assms(4,5) have "x = x' \<and> c = c'"
    by presburger
  with y show ?thesis by simp
qed



lemma write_rgba_apply:
  assumes "y' < h" "x' < w" "y < h" "x < w" "c < 4"
    and "4 * w \<le> unat stride" "unat stride * h < 2 ^ 32"
  shows "write_rgba stride y' x' r g b a px (unat stride * y + 4 * x + c) =
    (if y' = y \<and> x' = x then Some ([r, g, b, a] ! c) else px (unat stride * y + 4 * x + c))"
proof -
  have idx: "unat (stride * of_nat y' + 4 * of_nat x' + d) = unat stride * y' + 4 * x' + unat d"
    if "unat d < 4" for d :: uint
    using assms(1,2) that assms(6,7) by (rule pixel_index_unat)
  have eq: "unat stride * y + 4 * x + c = unat stride * y' + 4 * x' + d
      \<longleftrightarrow> y = y' \<and> x = x' \<and> c = d" if "d < 4" for d
    using pixel_index_inject [of "unat stride" y x c y' x' d w] assms(2,4,5,6) that by auto
  have c: "c = 0 \<or> c = 1 \<or> c = 2 \<or> c = 3"
    using assms(5) by auto
  show ?thesis
    unfolding write_rgba_def store_apply
    using c eq [of 0] eq [of 1] eq [of 2] eq [of 3] idx [of 0] idx [of 1] idx [of 2] idx [of 3]
    by auto
qed



section \<open>The DXT1 decoder\<close>

lemma texel_cells:
  "length (List.product [0..<4] [0..<4 :: nat]) = 16"
  "k < 16 \<Longrightarrow> List.product [0..<4] [0..<4 :: nat] ! k = (k div 4, k mod 4)"
  by (simp_all add: product_nth)

lemma dxt1_texels_cells:
  "dxt1_texels stride i j r g b a (px, sel) =
     (fold (\<lambda>k. write_rgba stride (i + k div 4) (j + k mod 4)
              (ucast (r ! unat (drop_bit (2 * k) sel AND 3)))
              (ucast (g ! unat (drop_bit (2 * k) sel AND 3)))
              (ucast (b ! unat (drop_bit (2 * k) sel AND 3)))
              (ucast (a ! unat (drop_bit (2 * k) sel AND 3)))) [0..<16] px,
      drop_bit 32 sel)"
proof -
  let ?f = "\<lambda>(ii, jj) (pixels, sel).
      (let pixels = store (stride * of_nat (i + ii) + 4 * of_nat (j + jj) + 0)
                      (ucast (r ! unat (sel AND 3))) pixels;
           pixels = store (stride * of_nat (i + ii) + 4 * of_nat (j + jj) + 1)
                      (ucast (g ! unat (sel AND 3))) pixels;
           pixels = store (stride * of_nat (i + ii) + 4 * of_nat (j + jj) + 2)
                      (ucast (b ! unat (sel AND 3))) pixels;
           pixels = store (stride * of_nat (i + ii) + 4 * of_nat (j + jj) + 3)
                      (ucast (a ! unat (sel AND 3))) pixels
       in (pixels, drop_bit 2 sel))"
  let ?T = "\<lambda>k. drop_bit (2 * k) sel"
  let ?W = "\<lambda>k. write_rgba stride (i + k div 4) (j + k mod 4)
              (ucast (r ! unat (drop_bit (2 * k) sel AND 3)))
              (ucast (g ! unat (drop_bit (2 * k) sel AND 3)))
              (ucast (b ! unat (drop_bit (2 * k) sel AND 3)))
              (ucast (a ! unat (drop_bit (2 * k) sel AND 3)))"
  have step: "?f (List.product [0..<4] [0..<4] ! k) (px, ?T k) = (?W k px, ?T (Suc k))"
    if "k < length (List.product [0..<4] [0..<4 :: nat])" for k px
  proof -
    from that have k: "k < 16" by simp
    have "drop_bit 2 (drop_bit (2 * k) sel) = drop_bit (2 * Suc k) sel"
      by (simp add: drop_bit_drop_bit add.commute)
    then show ?thesis
      unfolding texel_cells(2) [OF k] by (simp add: Let_def write_rgba_def)
  qed
  have "fold ?f (List.product [0..<4] [0..<4]) (px, ?T 0)
      = (fold ?W [0..<length (List.product [0..<4] [0..<4 :: nat])] px,
         ?T (length (List.product [0..<4] [0..<4 :: nat])))"
    using step by (rule fold_cells)
  then show ?thesis
    unfolding dxt1_texels_def fold_nested texel_cells(1) by simp
qed

lemma nth_channel:
  assumes "c < 4"
  shows "[f r, f g, f b, f a] ! c = f ([r, g, b, a] ! c)"
proof -
  from assms have "c = 0 \<or> c = 1 \<or> c = 2 \<or> c = 3" by auto
  then show ?thesis by auto
qed

lemma texel_number:
  assumes "i \<le> y" "y < i + 4" "j \<le> x" "x < j + (4 :: nat)"
  shows "4 * (y - i) + (x - j) < 16"
    and "i + (4 * (y - i) + (x - j)) div 4 = y"
    and "j + (4 * (y - i) + (x - j)) mod 4 = x"
proof -
  define a b where "a = y - i" and "b = x - j"
  with assms have ab: "a < 4" "b < 4" "y = i + a" "x = j + b"
    by simp_all
  show "4 * (y - i) + (x - j) < 16"
    using ab(1,2) unfolding a_def [symmetric] b_def [symmetric] by simp
  show "i + (4 * (y - i) + (x - j)) div 4 = y"
    using ab unfolding a_def [symmetric] b_def [symmetric] by simp
  show "j + (4 * (y - i) + (x - j)) mod 4 = x"
    using ab unfolding a_def [symmetric] b_def [symmetric] by simp
qed

lemma texel_number_unique:
  assumes "i + k div 4 = y" "j + k mod 4 = x" "i + k' div 4 = y" "j + k' mod 4 = (x :: nat)"
  shows "k' = (k :: nat)"
proof -
  from assms have "k div 4 = k' div 4" "k mod 4 = k' mod 4" by simp_all
  then show ?thesis
    by (metis div_mod_decomp)
qed

lemma dxt1_texels_apply:
  assumes "i + 4 \<le> h" "j + 4 \<le> w" "y < h" "x < w" "c < 4"
    and "4 * w \<le> unat stride" "unat stride * h < 2 ^ 32"
  shows "fst (dxt1_texels stride i j r g b a (px, sel)) (unat stride * y + 4 * x + c) =
    (if i \<le> y \<and> y < i + 4 \<and> j \<le> x \<and> x < j + 4
     then Some (ucast (([r, g, b, a] ! c) ! unat (drop_bit (2 * (4 * (y - i) + (x - j))) sel AND 3)))
     else px (unat stride * y + 4 * x + c))"
proof -
  let ?W = "\<lambda>k. write_rgba stride (i + k div 4) (j + k mod 4)
              (ucast (r ! unat (drop_bit (2 * k) sel AND 3)))
              (ucast (g ! unat (drop_bit (2 * k) sel AND 3)))
              (ucast (b ! unat (drop_bit (2 * k) sel AND 3)))
              (ucast (a ! unat (drop_bit (2 * k) sel AND 3)))"
  let ?n = "unat stride * y + 4 * x + c"
  have W: "?W k px ?n =
      (if i + k div 4 = y \<and> j + k mod 4 = x
       then Some ([ucast (r ! unat (drop_bit (2 * k) sel AND 3)),
                   ucast (g ! unat (drop_bit (2 * k) sel AND 3)),
                   ucast (b ! unat (drop_bit (2 * k) sel AND 3)),
                   ucast (a ! unat (drop_bit (2 * k) sel AND 3))] ! c)
       else px ?n)" if "k < 16" for k px
  proof -
    from that have "k div 4 < 4" "k mod 4 < 4" by simp_all
    with assms(1,2) have "i + k div 4 < h" "j + k mod 4 < w" by linarith+
    from write_rgba_apply [OF this assms(3-7)] show ?thesis .
  qed
  have ch: "[ucast (r ! e), ucast (g ! e), ucast (b ! e), ucast (a ! e)] ! c
      = (ucast (([r, g, b, a] ! c) ! e) :: uchar)" for e
    by (rule nth_channel [OF assms(5), of "\<lambda>l. ucast (l ! e)" r g b a])
  have res: "fst (dxt1_texels stride i j r g b a (px, sel)) ?n = fold ?W [0..<16] px ?n"
    unfolding dxt1_texels_cells by simp
  show ?thesis
  proof (cases "i \<le> y \<and> y < i + 4 \<and> j \<le> x \<and> x < j + 4")
    case True
    define k where "k = 4 * (y - i) + (x - j)"
    from True have T: "i \<le> y" "y < i + 4" "j \<le> x" "x < j + 4"
      by blast+
    note k = texel_number [OF T, folded k_def]
    have other: "\<not> (i + k' div 4 = y \<and> j + k' mod 4 = x)" if "k' \<noteq> k" for k'
      using that texel_number_unique [OF k(2,3), of k'] by blast
    have "fold ?W [0..<16] px ?n =
        Some (ucast (([r, g, b, a] ! c) ! unat (drop_bit (2 * k) sel AND 3)))"
    proof (rule fold_last_writer [where k = k])
      show "k < 16" by (rule k(1))
      show "?W k px ?n = Some (ucast (([r, g, b, a] ! c) ! unat (drop_bit (2 * k) sel AND 3)))" for px
        using W [OF k(1)] k(2,3) by (simp add: ch)
      show "?W k' px ?n = px ?n" if "k < k'" "k' < 16" for k' px
        using W [OF that(2)] other [of k'] that by simp
    qed
    then show ?thesis
      unfolding res k_def if_P [OF True] .
  next
    case False
    have "fold ?W [0..<16] px ?n = px ?n"
    proof (rule fold_untouched)
      fix k px
      assume "k < (16 :: nat)"
      then have "k div 4 < 4" "k mod 4 < 4" by simp_all
      with False have "\<not> (i + k div 4 = y \<and> j + k mod 4 = x)" by linarith
      with W [OF \<open>k < 16\<close>] show "?W k px ?n = px ?n" by simp
    qed
    then show ?thesis
      unfolding res if_not_P [OF False] .
  qed
qed



lemma next_byte_Some:
  "0 \<le> q \<Longrightarrow> q < int (length (buffer context)) \<Longrightarrow>
   next_byte context q = Some (buffer context ! nat q, q + 1)"
  by (simp add: next_byte_def)

lemma dxt1_block_step:
  assumes "0 \<le> p" "p + 8 \<le> int (length (buffer context))"
  shows "dxt1_block context stride i j (px, p) =
    Some (dxt1_block_pixels context stride i j (nat p) px, p + 8)"
  using assms unfolding dxt1_block_def dxt1_block_pixels_def
  by (simp add: next_byte_Some split_def Let_def le16_def le32_def nat_add_distrib
      eval_nat_numeral or.assoc)


lemma dxt1_block_pixels_apply:
  assumes "i + 4 \<le> h" "j + 4 \<le> w" "y < h" "x < w" "c < 4"
    and "4 * w \<le> unat stride" "unat stride * h < 2 ^ 32"
  shows "dxt1_block_pixels context stride i j q px (unat stride * y + 4 * x + c) =
    (if i \<le> y \<and> y < i + 4 \<and> j \<le> x \<and> x < j + 4
     then Some (dxt1_palette_byte (le16 (buffer context) q) (le16 (buffer context) (q + 2)) c
                  (unat (drop_bit (2 * (4 * (y - i) + (x - j))) (le32 (buffer context) (q + 4))
                     AND 3)))
     else px (unat stride * y + 4 * x + c))"
proof -
  obtain r g b a where
    pal: "dxt1_palette (le16 (buffer context) q) (le16 (buffer context) (q + 2)) = (r, g, b, a)"
    by (cases "dxt1_palette (le16 (buffer context) q) (le16 (buffer context) (q + 2))")
  show ?thesis
    unfolding dxt1_block_pixels_def dxt1_palette_byte_def pal split_conv
    by (rule dxt1_texels_apply [OF assms])
qed

lemma by_fours_aligned: "by_fours (4 * n) = map ((*) 4) [0..<n]"
proof (induction n)
  case 0
  show ?case by (simp add: by_fours_def)
next
  case (Suc n)
  have "4 * Suc n = Suc (Suc (Suc (Suc (4 * n))))"
    by simp
  then have "[0..<4 * Suc n] =
      [0..<4 * n] @ [4 * n, Suc (4 * n), Suc (Suc (4 * n)), Suc (Suc (Suc (4 * n)))]"
    by (simp only: upt_Suc) simp
  then have "by_fours (4 * Suc n) = by_fours (4 * n) @ [4 * n]"
    unfolding by_fours_def by (simp add: mod_Suc)
  with Suc show ?case by simp
qed

lemma block_cells:
  assumes "K < bh * bw"
  shows "List.product (map ((*) 4) [0..<bh]) (map ((*) 4) [0..<bw]) ! K
      = (4 * (K div bw), 4 * (K mod bw))"
proof -
  from assms have bw: "0 < bw"
    by (cases bw) simp_all
  from assms have "K div bw < bh"
    by (simp add: less_mult_imp_div_less)
  moreover have "K mod bw < bw"
    using bw by simp
  ultimately show ?thesis
    using assms by (simp add: product_nth)
qed



end
